theory Spec2Isabelle
  imports Complex_Main "HOL-Library.AList"
begin

text \<open>
  The log ingestion and stats pipeline of the killfeed bot: the line parser
  (\<open>bot/parsers/killfeed_parser.py\<close>), the writes of the player statistics
  (\<open>bot/models/database.py\<close>), the incremental pass, the historical refresh
  (\<open>bot/parsers/historical_parser.py\<close>) and the two SFTP fetches.

  Effects are explicit. The collections of the store, the dedup map of the incremental
  parser and the guard map of the historical parser are fields of one state that every
  function takes and returns. A store call may raise: the state carries the outcomes of the
  coming calls, and every \<open>try\<close>/\<open>except\<close> of the source is a branch on such an outcome.
  What the remote file server, the process environment and the Python library answer is a
  parameter. Chat messages are not part of the state; where sending one can change the
  control flow (the first message of a refresh) the outcome is a parameter too.
\<close>

section \<open>Python strings\<close>

text \<open>
  A Python \<open>str\<close> is a \<open>string\<close>; every \<open>char\<close> stands for the code point of the same
  number (0 to 255). Code points above 255 are outside the model.
\<close>

definition isspace :: "char \<Rightarrow> bool" where
  \<comment> \<open>\<open>str.isspace\<close> on one code point below 256\<close>
  "isspace c =
     (let n = (of_char c :: nat)
      in (9 \<le> n \<and> n \<le> 13) \<or> (28 \<le> n \<and> n \<le> 32) \<or> n = 133 \<or> n = 160)"

definition strip :: "string \<Rightarrow> string" where
  \<comment> \<open>\<open>s.strip()\<close>\<close>
  "strip s = rev (dropWhile isspace (rev (dropWhile isspace s)))"

definition lower_char :: "char \<Rightarrow> char" where
  \<comment> \<open>the upper-case code points below 256 move up by 32, which sets bit 5 of each\<close>
  "lower_char c =
     (let n = (of_char c :: nat)
      in if (65 \<le> n \<and> n \<le> 90) \<or> (192 \<le> n \<and> n \<le> 214) \<or> (216 \<le> n \<and> n \<le> 222)
         then Char (digit0 c) (digit1 c) (digit2 c) (digit3 c) (digit4 c) True (digit6 c) (digit7 c)
         else c)"

definition lower :: "string \<Rightarrow> string" where
  \<comment> \<open>\<open>s.lower()\<close>\<close>
  "lower s = map lower_char s"

fun split :: "char \<Rightarrow> string \<Rightarrow> string list" where
  \<comment> \<open>\<open>s.split(sep)\<close> for a one-character separator: never empty\<close>
  "split sep [] = [[]]"
| "split sep (c # cs) =
     (if c = sep then [] # split sep cs
      else (case split sep cs of [] \<Rightarrow> [[c]] | p # ps \<Rightarrow> (c # p) # ps))"

definition startswith :: "string \<Rightarrow> string \<Rightarrow> bool" where
  \<comment> \<open>\<open>s.startswith(p)\<close>, the prefix first\<close>
  "startswith p s = (take (length p) s = p)"

definition endswith :: "string \<Rightarrow> string \<Rightarrow> bool" where
  \<comment> \<open>\<open>s.endswith(p)\<close>, the suffix first\<close>
  "endswith p s = startswith (rev p) (rev s)"

fun contains :: "string \<Rightarrow> string \<Rightarrow> bool" where
  \<comment> \<open>\<open>sub in s\<close>, the substring first\<close>
  "contains sub [] = (sub = [])"
| "contains sub (c # cs) = (startswith sub (c # cs) \<or> contains sub cs)"

definition replace :: "char \<Rightarrow> string \<Rightarrow> string \<Rightarrow> string" where
  \<comment> \<open>\<open>s.replace(old, new)\<close> for a one-character \<open>old\<close>: every occurrence\<close>
  "replace old new s = concat (map (\<lambda>c. if c = old then new else [c]) s)"

definition digit_char :: "nat \<Rightarrow> char" where
  "digit_char n = ''0123456789'' ! n"

fun str_nat :: "nat \<Rightarrow> string" where
  "str_nat n = (if n < 10 then [digit_char n] else str_nat (n div 10) @ [digit_char (n mod 10)])"

declare str_nat.simps [simp del]

definition str_int :: "int \<Rightarrow> string" where
  \<comment> \<open>\<open>str(i)\<close>, as an f-string formats an int\<close>
  "str_int i = (if i < 0 then CHR ''-'' # str_nat (nat (- i)) else str_nat (nat i))"

section \<open>Library calls of the parser\<close>

text \<open>
  \<open>datetime.fromisoformat\<close>, \<open>datetime.strptime\<close> and \<open>float\<close> belong to the Python
  library, not to the repository. The parser takes them as a parameter: each answers
  \<open>None\<close> where Python raises \<open>ValueError\<close>. Floats are rationals here.
\<close>

datatype datetime = DateTime (wallclock: "nat list") (tzinfo: "int option")
  \<comment> \<open>the fields year .. second, and the UTC offset in minutes (\<open>None\<close>: a naive value)\<close>

definition replace_tzinfo_utc :: "datetime \<Rightarrow> datetime" where
  \<comment> \<open>\<open>t.replace(tzinfo=timezone.utc)\<close>\<close>
  "replace_tzinfo_utc t = DateTime (wallclock t) (Some 0)"

record pylib =
  fromisoformat :: "string \<Rightarrow> datetime option"
  strptime :: "string \<Rightarrow> datetime option"
    \<comment> \<open>\<open>datetime.strptime(s, '%Y-%m-%d %H:%M:%S')\<close>\<close>
  float_of_str :: "string \<Rightarrow> rat option"

definition sample_lib :: pylib where
  \<comment> \<open>The library's answers on the strings of the examples below: \<open>fromisoformat\<close> takes
      the first two timestamps, \<open>strptime\<close> the last two (it reads fields that are not
      padded with zeros). It rejects every other string, so it is used only on these
      strings and on strings Python rejects as well.\<close>
  "sample_lib =
     \<lparr> fromisoformat = (\<lambda>s. if s = ''2024-01-01T00:00:00+00:00''
                             then Some (DateTime [2024, 1, 1, 0, 0, 0] (Some 0))
                           else if s = ''2024-01-01 00:00:00''
                             then Some (DateTime [2024, 1, 1, 0, 0, 0] None)
                           else None),
       strptime = (\<lambda>s. if s = ''2024-01-01 00:00:00'' \<or> s = ''2024-1-1 0:0:0''
                        then Some (DateTime [2024, 1, 1, 0, 0, 0] None) else None),
       float_of_str = (\<lambda>s. if s = ''150.5'' then Some (301 / 2) else None) \<rparr>"

section \<open>Event Record Parser: \<open>KillfeedParser.parse_csv_line\<close>\<close>

record kill_data =
  timestamp :: datetime
  killer :: string
  victim :: string
  weapon :: string
  distance :: rat
  is_suicide :: bool
  raw_line :: string

definition parse_timestamp :: "pylib \<Rightarrow> string \<Rightarrow> datetime option" where
  \<comment> \<open>killfeed_parser.py 47-52; \<open>None\<close>: the second \<open>ValueError\<close> leaves the function\<close>
  "parse_timestamp L timestamp_str =
     (case fromisoformat L (replace CHR ''Z'' ''+00:00'' timestamp_str) of
        Some t \<Rightarrow> Some t
      | None \<Rightarrow>
          (case strptime L timestamp_str of
             Some t \<Rightarrow> Some (replace_tzinfo_utc t)
           | None \<Rightarrow> None))"

definition normalize_weapon :: "bool \<Rightarrow> string \<Rightarrow> string" where
  \<comment> \<open>killfeed_parser.py 56-62\<close>
  "normalize_weapon suicide w =
     (if suicide then
        (if contains ''relocation'' (lower w) then ''Menu Suicide''
         else if lower w = ''suicide_by_relocation'' then ''Menu Suicide''
         else ''Suicide'')
      else w)"

definition parse_distance :: "pylib \<Rightarrow> string \<Rightarrow> rat" where
  \<comment> \<open>killfeed_parser.py 65-68\<close>
  "parse_distance L d =
     (if d \<noteq> [] \<and> d \<noteq> ''N/A''
      then (case float_of_str L d of Some x \<Rightarrow> x | None \<Rightarrow> 0)
      else 0)"

definition parse_csv_line :: "pylib \<Rightarrow> string \<Rightarrow> kill_data option" where
  \<comment> \<open>\<open>None\<close> is the Python \<open>None\<close>: fewer than five parts, or an exception caught at 80-82\<close>
  "parse_csv_line L line =
     (case split CHR '','' (strip line) of
        timestamp_str # killer_s # victim_s # weapon_s # distance_s # rest \<Rightarrow>
          (case parse_timestamp L timestamp_str of
             None \<Rightarrow> None
           | Some t \<Rightarrow>
               let suicide = (killer_s = victim_s \<or> startswith ''suicide'' (lower weapon_s))
               in Some \<lparr> timestamp = t, killer = killer_s, victim = victim_s,
                         weapon = normalize_weapon suicide weapon_s,
                         distance = parse_distance L distance_s,
                         is_suicide = suicide,
                         raw_line = strip line \<rparr>)
      | _ \<Rightarrow> None)"

section \<open>Documents and the persistence service\<close>

text \<open>
  A document is a Python dict with string keys, kept in insertion order. The store is the
  external MongoDB service; of its semantics the model has equality filters, \<open>find_one\<close>,
  \<open>insert_one\<close>, \<open>delete_many\<close> and \<open>update_one\<close> with \<open>$setOnInsert\<close>, \<open>$set\<close> and
  \<open>upsert=True\<close>.
\<close>

datatype val =
    VNone
  | VBool bool
  | VInt int
  | VFloat rat
  | VStr string
  | VTime datetime
  | VDoc "(string \<times> val) list"

type_synonym doc = "(string \<times> val) list"

definition dict_get :: "doc \<Rightarrow> string \<Rightarrow> val \<Rightarrow> val" where
  \<comment> \<open>\<open>d.get(k, default)\<close>\<close>
  "dict_get d k dflt = (case map_of d k of Some v \<Rightarrow> v | None \<Rightarrow> dflt)"

definition dict_update :: "doc \<Rightarrow> doc \<Rightarrow> doc" where
  \<comment> \<open>\<open>{**d, **upd}\<close>: later values win, a key keeps its first position\<close>
  "dict_update d upd = foldl (\<lambda>acc kv. AList.update (fst kv) (snd kv) acc) d upd"

definition matches :: "doc \<Rightarrow> doc \<Rightarrow> bool" where
  \<comment> \<open>an equality filter: every field of the filter is in the document with that value\<close>
  "matches flt d = list_all (\<lambda>kv. map_of d (fst kv) = Some (snd kv)) flt"

definition find_one :: "doc \<Rightarrow> doc list \<Rightarrow> doc option" where
  "find_one flt c = List.find (matches flt) c"

definition delete_many :: "doc \<Rightarrow> doc list \<Rightarrow> doc list" where
  "delete_many flt c = filter (\<lambda>d. \<not> matches flt d) c"

fun update_first :: "('a \<Rightarrow> bool) \<Rightarrow> ('a \<Rightarrow> 'a) \<Rightarrow> 'a list \<Rightarrow> 'a list" where
  "update_first p f [] = []"
| "update_first p f (x # xs) = (if p x then f x # xs else x # update_first p f xs)"

datatype store_policy = RejectConflicts | LastWriteWins
  \<comment> \<open>What the store does with an update document in which \<open>$set\<close> names a field that
      \<open>$setOnInsert\<close> names too, or a field whose name starts with \<open>$\<close>. MongoDB refuses the
      write (\<open>RejectConflicts\<close>). \<open>LastWriteWins\<close> is a store that applies \<open>$setOnInsert\<close>,
      then \<open>$set\<close>, field by field, whatever the names.\<close>

definition update_conflict :: "doc \<Rightarrow> doc \<Rightarrow> bool" where
  "update_conflict set_on_insert set_doc =
     list_ex (\<lambda>kv. fst kv \<in> fst ` set set_on_insert \<or> startswith ''$'' (fst kv)) set_doc"

definition update_one :: "store_policy \<Rightarrow> doc \<Rightarrow> doc \<Rightarrow> doc \<Rightarrow> doc list \<Rightarrow> doc list option" where
  \<comment> \<open>\<open>c.update_one(flt, {"$setOnInsert": soi, "$set": sd}, upsert=True)\<close>;
      \<open>None\<close>: the store raises a write error\<close>
  "update_one P flt soi sd c =
     (if P = RejectConflicts \<and> update_conflict soi sd then None
      else if list_ex (matches flt) c
        then Some (update_first (matches flt) (\<lambda>d. dict_update d sd) c)
        else Some (c @ [dict_update (dict_update flt soi) sd]))"

section \<open>State of the bot\<close>

record world =
  pvp_data :: "doc list"
    \<comment> \<open>collection \<open>db.pvp_data\<close>: the player stat records\<close>
  kill_events :: "doc list"
    \<comment> \<open>collection \<open>db.kill_events\<close>: the kill-event log\<close>
  faults :: "bool list"
    \<comment> \<open>the outcomes of the coming store calls, in order: \<open>True\<close> is a call that raises
        (the store is unreachable); past the end of the list every call succeeds\<close>
  now :: datetime
    \<comment> \<open>what \<open>datetime.now\<close> returns\<close>
  true_div :: "rat \<Rightarrow> rat \<Rightarrow> rat option"
    \<comment> \<open>Python's \<open>/\<close> on two numbers, the divisor not 0: the quotient rounded to a
        float, \<open>None\<close> where it raises \<open>OverflowError\<close>\<close>
  parsed_lines :: "string \<rightharpoonup> string set"
    \<comment> \<open>\<open>KillfeedParser.parsed_lines\<close>\<close>
  active_refreshes :: "string \<rightharpoonup> bool"
    \<comment> \<open>\<open>HistoricalParser.active_refreshes\<close>\<close>

definition store_call :: "world \<Rightarrow> bool \<times> world" where
  \<comment> \<open>one call of the store: whether it raises, and the state with that outcome used up\<close>
  "store_call w = (case faults w of [] \<Rightarrow> (False, w) | f # fs \<Rightarrow> (f, w\<lparr>faults := fs\<rparr>))"

section \<open>Stats Aggregator: \<open>DatabaseManager\<close>\<close>

definition stats_key :: "int \<Rightarrow> string \<Rightarrow> string \<Rightarrow> doc" where
  "stats_key guild_id server_id player_name =
     [(''guild_id'', VInt guild_id), (''server_id'', VStr server_id),
      (''player_name'', VStr player_name)]"

definition default_stats :: "int \<Rightarrow> string \<Rightarrow> string \<Rightarrow> datetime \<Rightarrow> doc" where
  \<comment> \<open>database.py 150-163\<close>
  "default_stats guild_id server_id player_name t =
     stats_key guild_id server_id player_name @
     [(''kills'', VInt 0), (''deaths'', VInt 0), (''suicides'', VInt 0), (''kdr'', VFloat 0),
      (''longest_streak'', VInt 0), (''current_streak'', VInt 0), (''favorite_weapon'', VNone),
      (''total_distance'', VFloat 0), (''last_updated'', VTime t)]"

definition num_of :: "val \<Rightarrow> rat option" where
  \<comment> \<open>the number in a value; \<open>None\<close> where \<open>max(v, 1)\<close> or \<open>/\<close> raises \<open>TypeError\<close>\<close>
  "num_of v =
     (case v of
        VInt i \<Rightarrow> Some (of_int i)
      | VFloat r \<Rightarrow> Some r
      | VBool b \<Rightarrow> Some (if b then 1 else 0)
      | _ \<Rightarrow> None)"

definition calc_kdr :: "doc \<Rightarrow> doc \<Rightarrow> world \<Rightarrow> doc option \<times> world" where
  \<comment> \<open>database.py 165-175: the update document after the KDR step; \<open>None\<close> when the step
      raises (the store call, a missing key of \<open>current_doc\<close>, a value that is no number,
      a quotient too large for a float)\<close>
  "calc_kdr key stats_update w =
     (if ''kills'' \<in> fst ` set stats_update \<or> ''deaths'' \<in> fst ` set stats_update then
        (case store_call w of
           (True, w1) \<Rightarrow> (None, w1)
         | (False, w1) \<Rightarrow>
             (let current_doc = find_one key (pvp_data w1);
                  kills_dflt = (case current_doc of None \<Rightarrow> Some (VInt 0)
                                | Some d \<Rightarrow> map_of d ''kills'');
                  deaths_dflt = (case current_doc of None \<Rightarrow> Some (VInt 0)
                                 | Some d \<Rightarrow> map_of d ''deaths'')
              in case (kills_dflt, deaths_dflt) of
                   (Some kd, Some dd) \<Rightarrow>
                     (case (num_of (dict_get stats_update ''kills'' kd),
                            num_of (dict_get stats_update ''deaths'' dd)) of
                        (Some kills, Some deaths) \<Rightarrow>
                          (case true_div w1 kills (max deaths 1) of
                             Some kdr \<Rightarrow>
                               (Some (AList.update ''kdr'' (VFloat kdr) stats_update), w1)
                           | None \<Rightarrow> (None, w1))
                      | _ \<Rightarrow> (None, w1))
                 | _ \<Rightarrow> (None, w1)))
      else (Some stats_update, w))"

definition update_pvp_stats ::
  "store_policy \<Rightarrow> int \<Rightarrow> string \<Rightarrow> string \<Rightarrow> doc \<Rightarrow> world \<Rightarrow> bool \<times> world" where
  \<comment> \<open>database.py 145-189; \<open>False\<close> is the \<open>except\<close> branch\<close>
  "update_pvp_stats P guild_id server_id player_name stats_update w =
     (let key = stats_key guild_id server_id player_name in
      case calc_kdr key stats_update w of
        (None, w1) \<Rightarrow> (False, w1)
      | (Some su, w1) \<Rightarrow>
          (let su' = AList.update ''last_updated'' (VTime (now w1)) su in
           case store_call w1 of
             (True, w2) \<Rightarrow> (False, w2)
           | (False, w2) \<Rightarrow>
               (case update_one P key (default_stats guild_id server_id player_name (now w))
                       su' (pvp_data w2) of
                  None \<Rightarrow> (False, w2)
                | Some c \<Rightarrow> (True, w2\<lparr>pvp_data := c\<rparr>))))"

definition kill_data_items :: "kill_data \<Rightarrow> doc" where
  \<comment> \<open>the dict \<open>parse_csv_line\<close> returns\<close>
  "kill_data_items kd =
     [(''timestamp'', VTime (timestamp kd)), (''killer'', VStr (killer kd)),
      (''victim'', VStr (victim kd)), (''weapon'', VStr (weapon kd)),
      (''distance'', VFloat (distance kd)), (''is_suicide'', VBool (is_suicide kd)),
      (''raw_line'', VStr (raw_line kd))]"

definition kill_event :: "int \<Rightarrow> string \<Rightarrow> datetime \<Rightarrow> kill_data \<Rightarrow> doc" where
  \<comment> \<open>database.py 203-208\<close>
  "kill_event guild_id server_id t kd =
     dict_update [(''guild_id'', VInt guild_id), (''server_id'', VStr server_id),
                  (''timestamp'', VTime t)] (kill_data_items kd)"

definition add_kill_event :: "int \<Rightarrow> string \<Rightarrow> kill_data \<Rightarrow> world \<Rightarrow> bool \<times> world" where
  \<comment> \<open>database.py 200-215\<close>
  "add_kill_event guild_id server_id kd w =
     (case store_call w of
        (True, w1) \<Rightarrow> (False, w1)
      | (False, w1) \<Rightarrow>
          (True, w1\<lparr>kill_events := kill_events w1 @ [kill_event guild_id server_id (now w) kd]\<rparr>))"

definition inc :: "string \<Rightarrow> doc" where
  \<comment> \<open>the argument the parsers pass: \<open>{"$inc": {field: 1}}\<close>\<close>
  "inc field = [(''$inc'', VDoc [(field, VInt 1)])]"

definition player_stat :: "world \<Rightarrow> int \<Rightarrow> string \<Rightarrow> string \<Rightarrow> string \<Rightarrow> val option" where
  \<comment> \<open>a field of a player's record, as \<open>get_pvp_stats\<close> (database.py 191-197) finds it\<close>
  "player_stat w guild_id server_id player_name field =
     (case find_one (stats_key guild_id server_id player_name) (pvp_data w) of
        None \<Rightarrow> None
      | Some d \<Rightarrow> map_of d field)"

definition zero_of :: "string \<Rightarrow> val" where
  \<comment> \<open>the value \<open>default_stats\<close> gives a counter, and the ratio\<close>
  "zero_of field = (if field = ''kdr'' then VFloat 0 else VInt 0)"

definition frozen :: "val option \<Rightarrow> val option \<Rightarrow> string \<Rightarrow> bool" where
  \<comment> \<open>a field of a player after a step, against the field before: as it was, or absent
      before and at its default now\<close>
  "frozen before after field =
     (after = before \<or> (before = None \<and> after = Some (zero_of field)))"

definition counters :: "string list" where
  "counters = [''kills'', ''deaths'', ''suicides'', ''kdr'']"

definition record_step :: "doc option \<Rightarrow> doc option \<Rightarrow> bool" where
  \<comment> \<open>the record of a player after a step, against the record before: none before and none
      or a new one at the defaults now, or one before and one with the same counters now\<close>
  "record_step before after =
     (case before of
        None \<Rightarrow>
          (case after of
             None \<Rightarrow> True
           | Some d' \<Rightarrow> list_all (\<lambda>f. map_of d' f = Some (zero_of f)) counters)
      | Some d \<Rightarrow>
          (case after of
             None \<Rightarrow> False
           | Some d' \<Rightarrow> list_all (\<lambda>f. map_of d' f = map_of d f) counters))"


definition zeroed :: "doc \<Rightarrow> bool" where
  \<comment> \<open>a record whose counters and ratio are those of \<open>default_stats\<close>\<close>
  "zeroed d = list_all (\<lambda>f. map_of d f = Some (zero_of f)) counters"

section \<open>Incremental mode: \<open>KillfeedParser\<close>\<close>

definition send_killfeed_embed :: "int \<Rightarrow> kill_data \<Rightarrow> world \<Rightarrow> world" where
  \<comment> \<open>killfeed_parser.py 193-261: reads the guild's configuration from the store and posts
      a chat message; every exception is caught inside. Of this the model keeps the store call.\<close>
  "send_killfeed_embed guild_id kd w = snd (store_call w)"

definition process_kill_event ::
  "store_policy \<Rightarrow> int \<Rightarrow> string \<Rightarrow> kill_data \<Rightarrow> world \<Rightarrow> world" where
  \<comment> \<open>killfeed_parser.py 161-191\<close>
  "process_kill_event P guild_id server_id kd w =
     (let w1 = snd (add_kill_event guild_id server_id kd w);
          w2 = (if is_suicide kd
                then snd (update_pvp_stats P guild_id server_id (victim kd) (inc ''suicides'') w1)
                else snd (update_pvp_stats P guild_id server_id (victim kd) (inc ''deaths'')
                       (snd (update_pvp_stats P guild_id server_id (killer kd) (inc ''kills'') w1))))
      in send_killfeed_embed guild_id kd w2)"

record server_config =
  server_id :: "string option"
  sftp_host :: "string option"
  sftp_port :: "int option"
  sftp_username :: "string option"
  sftp_password :: "string option"

definition server_id_of :: "server_config \<Rightarrow> string" where
  \<comment> \<open>\<open>server_config.get('server_id', 'unknown')\<close>\<close>
  "server_id_of cfg = (case server_id cfg of Some s \<Rightarrow> s | None \<Rightarrow> ''unknown'')"

definition server_key :: "int \<Rightarrow> string \<Rightarrow> string" where
  \<comment> \<open>\<open>f"{guild_id}_{server_id}"\<close>\<close>
  "server_key guild_id sid = str_int guild_id @ ''_'' @ sid"

definition lines_seen :: "world \<Rightarrow> string \<Rightarrow> string set" where
  \<comment> \<open>\<open>self.parsed_lines[server_key]\<close>, empty while the key is not there\<close>
  "lines_seen w key = (case parsed_lines w key of None \<Rightarrow> {} | Some S \<Rightarrow> S)"

definition mark_seen :: "string \<Rightarrow> string \<Rightarrow> world \<Rightarrow> world" where
  \<comment> \<open>\<open>self.parsed_lines[server_key].add(line)\<close>\<close>
  "mark_seen key line w =
     w\<lparr>parsed_lines := (parsed_lines w)(key \<mapsto> insert line (lines_seen w key))\<rparr>"

definition killfeed_line ::
  "store_policy \<Rightarrow> pylib \<Rightarrow> int \<Rightarrow> string \<Rightarrow> string \<Rightarrow> nat \<times> world \<Rightarrow> nat \<times> world" where
  \<comment> \<open>killfeed_parser.py 287-294, one turn of the loop, on \<open>(new_events, state)\<close>\<close>
  "killfeed_line P L guild_id sid line acc =
     (case acc of (new_events, w) \<Rightarrow>
        if strip line = [] \<or> line \<in> lines_seen w (server_key guild_id sid) then (new_events, w)
        else (case parse_csv_line L line of
                None \<Rightarrow> (new_events, w)
              | Some kd \<Rightarrow>
                  (let w1 = process_kill_event P guild_id sid kd w;
                       key = server_key guild_id sid
                   in (new_events + 1, mark_seen key line w1))))"

definition killfeed_lines ::
  "store_policy \<Rightarrow> pylib \<Rightarrow> int \<Rightarrow> string \<Rightarrow> string list \<Rightarrow> nat \<times> world \<Rightarrow> nat \<times> world" where
  \<comment> \<open>killfeed_parser.py 286-294, the loop\<close>
  "killfeed_lines P L guild_id sid lines acc =
     foldl (\<lambda>a line. killfeed_line P L guild_id sid line a) acc lines"

definition parse_server_killfeed ::
  "store_policy \<Rightarrow> pylib \<Rightarrow> int \<Rightarrow> server_config \<Rightarrow> string list \<Rightarrow> world \<Rightarrow> world" where
  \<comment> \<open>killfeed_parser.py 263-299; \<open>lines\<close> is what the fetch at 270-273 returned\<close>
  "parse_server_killfeed P L guild_id cfg lines w =
     (let sid = server_id_of cfg in
      if lines = [] then w
      else
        (let key = server_key guild_id sid;
             w1 = (if parsed_lines w key = None
                   then w\<lparr>parsed_lines := (parsed_lines w)(key \<mapsto> {})\<rparr> else w)
         in snd (killfeed_lines P L guild_id sid lines (0, w1))))"

definition later_runs ::
  "store_policy \<Rightarrow> pylib \<Rightarrow> int \<Rightarrow> server_config \<Rightarrow> string list list \<Rightarrow> world \<Rightarrow> world" where
  \<comment> \<open>the passes of \<open>run_killfeed_parser\<close> (killfeed_parser.py 313-314) over one server, one
      after the other, each on the lines its fetch returned\<close>
  "later_runs P L guild_id cfg batches w =
     foldl (\<lambda>w' ls. parse_server_killfeed P L guild_id cfg ls w') w batches"

section \<open>Historical mode: \<open>HistoricalParser\<close>\<close>

definition server_filter :: "int \<Rightarrow> string \<Rightarrow> doc" where
  "server_filter guild_id sid = [(''guild_id'', VInt guild_id), (''server_id'', VStr sid)]"

definition clear_server_data :: "int \<Rightarrow> string \<Rightarrow> world \<Rightarrow> world" where
  \<comment> \<open>historical_parser.py 130-148: a delete that raises ends the function, caught and logged\<close>
  "clear_server_data guild_id sid w =
     (case store_call w of
        (True, w1) \<Rightarrow> w1
      | (False, w1) \<Rightarrow>
          (let w2 = w1\<lparr>pvp_data := delete_many (server_filter guild_id sid) (pvp_data w1)\<rparr> in
           case store_call w2 of
             (True, w3) \<Rightarrow> w3
           | (False, w3) \<Rightarrow>
               w3\<lparr>kill_events := delete_many (server_filter guild_id sid) (kill_events w3)\<rparr>))"

definition refresh_line ::
  "store_policy \<Rightarrow> pylib \<Rightarrow> int \<Rightarrow> string \<Rightarrow> string \<Rightarrow> nat \<times> world \<Rightarrow> nat \<times> world" where
  \<comment> \<open>historical_parser.py 279-300, one turn of the loop, on \<open>(processed_count, state)\<close>. The
      progress message of 302-306 edits a chat message and catches every exception.\<close>
  "refresh_line P L guild_id sid line acc =
     (case acc of (processed_count, w) \<Rightarrow>
        if strip line = [] then (processed_count, w)
        else (case parse_csv_line L line of
                None \<Rightarrow> (processed_count, w)
              | Some kd \<Rightarrow>
                  (let w1 = snd (add_kill_event guild_id sid kd w);
                       w2 = (if \<not> is_suicide kd
                             then snd (update_pvp_stats P guild_id sid (killer kd) (inc ''kills'') w1)
                             else w1);
                       w3 = snd (update_pvp_stats P guild_id sid (victim kd)
                                   (inc (if \<not> is_suicide kd then ''deaths'' else ''suicides'')) w2)
                   in (processed_count + 1, w3))))"

definition refresh_lines ::
  "store_policy \<Rightarrow> pylib \<Rightarrow> int \<Rightarrow> string \<Rightarrow> string list \<Rightarrow> nat \<times> world \<Rightarrow> nat \<times> world" where
  \<comment> \<open>historical_parser.py 278-306, the loop\<close>
  "refresh_lines P L guild_id sid lines acc =
     foldl (\<lambda>a line. refresh_line P L guild_id sid line a) acc lines"

datatype channel = Channel (send_raises: bool)
  \<comment> \<open>the chat channel of the call, and whether \<open>channel.send\<close> raises\<close>

definition set_refresh :: "string \<Rightarrow> bool \<Rightarrow> world \<Rightarrow> world" where
  \<comment> \<open>\<open>self.active_refreshes[refresh_key] = b\<close>\<close>
  "set_refresh key b w = w\<lparr>active_refreshes := (active_refreshes w)(key \<mapsto> b)\<rparr>"

definition refresh_enter :: "int \<Rightarrow> server_config \<Rightarrow> world \<Rightarrow> (bool \<times> world) + world" where
  \<comment> \<open>historical_parser.py 237-245, the guard. \<open>Inl\<close>: the call is rejected and returns.
      \<open>Inr\<close>: the state in which the refresh goes on, marked as running.\<close>
  "refresh_enter guild_id cfg w =
     (let refresh_key = server_key guild_id (server_id_of cfg)
      in if active_refreshes w refresh_key = Some True then Inl (False, w)
         else Inr (set_refresh refresh_key True w))"

definition refresh_start ::
  "int \<Rightarrow> server_config \<Rightarrow> channel option \<Rightarrow> string list \<Rightarrow> world \<Rightarrow> (bool \<times> world) + world" where
  \<comment> \<open>historical_parser.py 237-275, up to the loop. \<open>Inl\<close>: the call returns at once, with
      that result and state. \<open>Inr\<close>: the state in which the loop over the lines starts.\<close>
  "refresh_start guild_id cfg chan lines w =
     (let sid = server_id_of cfg;
          refresh_key = server_key guild_id sid
      in case refresh_enter guild_id cfg w of
           Inl r \<Rightarrow> Inl r
         | Inr w1 \<Rightarrow>
             if chan = Some (Channel True) then Inl (False, set_refresh refresh_key False w1)
             else
               (let w2 = clear_server_data guild_id sid w1 in
                if lines = [] then Inl (False, set_refresh refresh_key False w2)
                else Inr w2))"

definition refresh_server_data ::
  "store_policy \<Rightarrow> pylib \<Rightarrow> int \<Rightarrow> server_config \<Rightarrow> channel option \<Rightarrow> string list \<Rightarrow> world
     \<Rightarrow> bool \<times> world" where
  \<comment> \<open>historical_parser.py 233-323; \<open>lines\<close> is what \<open>get_all_csv_files\<close> returns at 266\<close>
  "refresh_server_data P L guild_id cfg chan lines w =
     (case refresh_start guild_id cfg chan lines w of
        Inl r \<Rightarrow> r
      | Inr w2 \<Rightarrow>
          (True, set_refresh (server_key guild_id (server_id_of cfg)) False
                   (snd (refresh_lines P L guild_id (server_id_of cfg) lines (0, w2)))))"

definition purge :: "int \<Rightarrow> string \<Rightarrow> world \<Rightarrow> world" where
  \<comment> \<open>the state without the records and the log entries of one server\<close>
  "purge guild_id sid w =
     w\<lparr>pvp_data := delete_many (server_filter guild_id sid) (pvp_data w),
       kill_events := delete_many (server_filter guild_id sid) (kill_events w)\<rparr>"

definition parsed_events :: "pylib \<Rightarrow> string list \<Rightarrow> kill_data list" where
  \<comment> \<open>the events of the lines that are not blank and parse, in the order of the lines\<close>
  "parsed_events L lines =
     List.map_filter (\<lambda>line. if strip line = [] then None else parse_csv_line L line) lines"

section \<open>Remote Source Adapter: the two \<open>get_sftp_csv_files\<close>\<close>

datatype exn = FileNotFoundError | OtherError
  \<comment> \<open>the exception classes the code tells apart\<close>

record fetch_env =
  connect_raises :: bool
    \<comment> \<open>\<open>ssh.connect\<close> or \<open>ssh.open_sftp\<close> raises\<close>
  listdir_attr :: "string \<Rightarrow> exn + (string \<times> int) list"
    \<comment> \<open>\<open>sftp.listdir_attr(path)\<close>: the entries as (filename, st_mtime)\<close>
  read_lines :: "string \<Rightarrow> exn + string list"
    \<comment> \<open>\<open>sftp.open(path, 'r').read()\<close>, then \<open>splitlines()\<close>. Paramiko's \<open>read\<close> returns
        \<open>bytes\<close>, so at run time the elements are \<open>bytes\<close>, which \<open>parse_csv_line\<close> does
        not split; they stand here as the text they hold, the \<open>List[str]\<close> that both
        fetches declare and that the dev-mode fetch returns.\<close>
  environ :: "string \<rightharpoonup> string"
    \<comment> \<open>the process environment, for \<open>os.getenv\<close>\<close>
  int_of_str :: "string \<Rightarrow> int option"
    \<comment> \<open>\<open>int(s)\<close>; \<open>None\<close>: \<open>ValueError\<close>\<close>

definition truthy :: "string option \<Rightarrow> bool" where
  \<comment> \<open>a value \<open>all([...])\<close> accepts: present and not empty\<close>
  "truthy v = (case v of None \<Rightarrow> False | Some s \<Rightarrow> s \<noteq> [])"

definition deathlogs_path :: "string option \<Rightarrow> string \<Rightarrow> string" where
  \<comment> \<open>\<open>f"./{sftp_host}_{server_id}/actual1/deathlogs/"\<close>\<close>
  "deathlogs_path host sid =
     ''./'' @ (case host of Some h \<Rightarrow> h | None \<Rightarrow> ''None'') @ ''_'' @ sid @ ''/actual1/deathlogs/''"

definition csv_files :: "(string \<times> int) list \<Rightarrow> (string \<times> int) list" where
  "csv_files items = filter (\<lambda>x. endswith ''.csv'' (fst x)) items"

definition fetch_latest :: "server_config \<Rightarrow> fetch_env \<Rightarrow> exn + string list" where
  \<comment> \<open>killfeed_parser.py 87-134, the body of the \<open>try\<close>; \<open>Inl\<close>: it raises\<close>
  "fetch_latest cfg r =
     (if \<not> (truthy (sftp_host cfg) \<and> truthy (sftp_username cfg) \<and> truthy (sftp_password cfg))
      then Inr []
      else if connect_raises r then Inl OtherError
      else
        (let remote_path = deathlogs_path (sftp_host cfg) (server_id_of cfg) in
         case listdir_attr r remote_path of
           Inl FileNotFoundError \<Rightarrow> Inr []
         | Inl OtherError \<Rightarrow> Inl OtherError
         | Inr items \<Rightarrow>
             (case sort_key (\<lambda>x. - snd x) (csv_files items) of
                [] \<Rightarrow> Inr []
              | most_recent # _ \<Rightarrow> read_lines r (remote_path @ ''/'' @ fst most_recent))))"

definition get_sftp_csv_files :: "server_config \<Rightarrow> fetch_env \<Rightarrow> string list" where
  \<comment> \<open>\<open>KillfeedParser.get_sftp_csv_files\<close>, killfeed_parser.py 84-138\<close>
  "get_sftp_csv_files cfg r = (case fetch_latest cfg r of Inl e \<Rightarrow> [] | Inr ls \<Rightarrow> ls)"

definition getenv :: "fetch_env \<Rightarrow> string \<Rightarrow> string option \<Rightarrow> string option" where
  \<comment> \<open>\<open>os.getenv(name, default)\<close>\<close>
  "getenv r name dflt = (case environ r name of Some v \<Rightarrow> Some v | None \<Rightarrow> dflt)"

definition port_raises :: "fetch_env \<Rightarrow> bool" where
  \<comment> \<open>historical_parser.py 82: \<open>int(...)\<close> of the environment's \<open>SFTP_PORT\<close>\<close>
  "port_raises r =
     (case environ r ''SFTP_PORT'' of None \<Rightarrow> False | Some s \<Rightarrow> int_of_str r s = None)"

fun read_all ::
  "fetch_env \<Rightarrow> string \<Rightarrow> string list \<Rightarrow> string list \<Rightarrow> (exn \<times> string list) + string list" where
  \<comment> \<open>historical_parser.py 114-117; \<open>Inl\<close>: the exception and \<open>all_lines\<close> at that moment\<close>
  "read_all r remote_path [] all_lines = Inr all_lines"
| "read_all r remote_path (filename # rest) all_lines =
     (case read_lines r (remote_path @ ''/'' @ filename) of
        Inl e \<Rightarrow> Inl (e, all_lines)
      | Inr ls \<Rightarrow> read_all r remote_path rest (all_lines @ ls))"

definition file_lines :: "fetch_env \<Rightarrow> string \<Rightarrow> string \<Rightarrow> string list" where
  \<comment> \<open>the lines of a file that can be read\<close>
  "file_lines r remote_path filename =
     (case read_lines r (remote_path @ ''/'' @ filename) of Inr ls \<Rightarrow> ls | Inl e \<Rightarrow> [])"

definition fetch_all :: "server_config \<Rightarrow> fetch_env \<Rightarrow> exn + string list" where
  \<comment> \<open>historical_parser.py 77-124, the body of the outer \<open>try\<close>; \<open>Inl\<close>: it raises\<close>
  "fetch_all cfg r =
     (let host = getenv r ''SFTP_HOST'' (sftp_host cfg);
          username = getenv r ''SFTP_USERNAME'' (sftp_username cfg);
          password = getenv r ''SFTP_PASSWORD'' (sftp_password cfg)
      in if port_raises r then Inl OtherError
         else if \<not> (truthy host \<and> truthy username \<and> truthy password) then Inr []
         else if connect_raises r then Inl OtherError
         else
           (let remote_path = deathlogs_path host (server_id_of cfg) in
            case listdir_attr r remote_path of
              Inl FileNotFoundError \<Rightarrow> Inr []
            | Inl OtherError \<Rightarrow> Inl OtherError
            | Inr items \<Rightarrow>
                (case read_all r remote_path (map fst (sort_key snd (csv_files items))) [] of
                   Inr all_lines \<Rightarrow> Inr all_lines
                 | Inl (FileNotFoundError, all_lines) \<Rightarrow> Inr all_lines
                 | Inl (OtherError, all_lines) \<Rightarrow> Inl OtherError)))"

definition get_sftp_csv_files_all :: "server_config \<Rightarrow> fetch_env \<Rightarrow> string list" where
  \<comment> \<open>\<open>HistoricalParser.get_sftp_csv_files\<close>, historical_parser.py 74-128\<close>
  "get_sftp_csv_files_all cfg r = (case fetch_all cfg r of Inl e \<Rightarrow> [] | Inr ls \<Rightarrow> ls)"

section \<open>Example inputs\<close>

definition empty_world :: world where
  \<comment> \<open>an empty store that never fails, nothing parsed, no refresh running; the division is
      exact, as Python's is on the small quotients of the examples\<close>
  "empty_world =
     \<lparr> pvp_data = [], kill_events = [], faults = [],
       now = DateTime [2024, 6, 1, 12, 0, 0] (Some 0),
       true_div = (\<lambda>a b. Some (a / b)),
       parsed_lines = Map.empty, active_refreshes = Map.empty \<rparr>"

definition alice_line :: string where
  "alice_line = ''2024-01-01T00:00:00Z,Alice,Bob,AK74,150.5''"

definition alice_kills_bob :: kill_data where
  \<comment> \<open>the event of \<open>alice_line\<close>\<close>
  "alice_kills_bob =
     \<lparr> timestamp = DateTime [2024, 1, 1, 0, 0, 0] (Some 0), killer = ''Alice'', victim = ''Bob'',
       weapon = ''AK74'', distance = 301 / 2, is_suicide = False, raw_line = alice_line \<rparr>"

definition carl_line :: string where
  "carl_line = ''2024-01-01T00:00:00Z,Carl,Carl,Suicide_by_relocation,N/A''"

definition carl_suicide :: kill_data where
  \<comment> \<open>the event of \<open>carl_line\<close>\<close>
  "carl_suicide =
     \<lparr> timestamp = DateTime [2024, 1, 1, 0, 0, 0] (Some 0), killer = ''Carl'', victim = ''Carl'',
       weapon = ''Menu Suicide'', distance = 0, is_suicide = True, raw_line = carl_line \<rparr>"

definition dan_line :: string where
  "dan_line = ''2024-01-01T00:00:00Z,Dan,Eve,M4,N/A''"

definition dan_kills_eve :: kill_data where
  \<comment> \<open>the event of \<open>dan_line\<close>\<close>
  "dan_kills_eve =
     \<lparr> timestamp = DateTime [2024, 1, 1, 0, 0, 0] (Some 0), killer = ''Dan'', victim = ''Eve'',
       weapon = ''M4'', distance = 0, is_suicide = False, raw_line = dan_line \<rparr>"

definition s1 :: server_config where
  "s1 = \<lparr> server_id = Some ''s1'', sftp_host = Some ''host'', sftp_port = None,
          sftp_username = Some ''user'', sftp_password = Some ''secret'' \<rparr>"

definition zed_record :: doc where
  \<comment> \<open>a player stat record of guild 1, server \<open>s1\<close>, from before a run\<close>
  "zed_record =
     [(''guild_id'', VInt 1), (''server_id'', VStr ''s1''), (''player_name'', VStr ''Zed''),
      (''kills'', VInt 0), (''deaths'', VInt 0), (''suicides'', VInt 0), (''kdr'', VFloat 0)]"


definition rotated_env :: fetch_env where
  \<comment> \<open>a server that lists two logs; the newer one is gone when it is opened\<close>
  "rotated_env =
     \<lparr> connect_raises = False,
       listdir_attr = (\<lambda>p. if p = ''./host_s1/actual1/deathlogs/''
                           then Inr [(''b.csv'', 2), (''a.csv'', 1), (''notes.txt'', 3)]
                           else Inl FileNotFoundError),
       read_lines = (\<lambda>p. if p = ''./host_s1/actual1/deathlogs//a.csv''
                         then Inr [alice_line] else Inl FileNotFoundError),
       environ = Map.empty,
       int_of_str = (\<lambda>s. None) \<rparr>"

section \<open>Facts about the string functions\<close>

lemma split_not_Nil: "split sep s \<noteq> []"
  by (induction s) (auto split: list.splits)

lemma split_parts_no_sep: "list_all (\<lambda>p. sep \<notin> set p) (split sep s)"
  by (induction s) (auto split: list.splits)

lemma length_split: "length (split sep s) = Suc (count_list s sep)"
  by (induction s) (auto split: list.splits)

lemma startswith_iff: "startswith p s \<longleftrightarrow> (\<exists>t. s = p @ t)"
  unfolding startswith_def
  by (metis append_eq_conv_conj append_take_drop_id)

lemma contains_iff: "contains sub s \<longleftrightarrow> (\<exists>pre post. s = pre @ sub @ post)"
proof (induction s)
  case Nil
  then show ?case by auto
next
  case (Cons c cs)
  show ?case
  proof
    assume "contains sub (c # cs)"
    then consider "startswith sub (c # cs)" | "contains sub cs" by auto
    then show "\<exists>pre post. c # cs = pre @ sub @ post"
    proof cases
      case 1
      then obtain t where "c # cs = sub @ t" by (auto simp: startswith_iff)
      then have "c # cs = [] @ sub @ t" by simp
      then show ?thesis by blast
    next
      case 2
      then obtain pre post where "cs = pre @ sub @ post" using Cons.IH by blast
      then have "c # cs = (c # pre) @ sub @ post" by simp
      then show ?thesis by blast
    qed
  next
    assume "\<exists>pre post. c # cs = pre @ sub @ post"
    then obtain pre post where e: "c # cs = pre @ sub @ post" by blast
    show "contains sub (c # cs)"
    proof (cases pre)
      case Nil
      with e have "startswith sub (c # cs)" by (auto simp: startswith_iff)
      then show ?thesis by simp
    next
      case (Cons a pre')
      with e have "cs = pre' @ sub @ post" by simp
      then have "contains sub cs" using Cons.IH by blast
      then show ?thesis by simp
    qed
  qed
qed

lemma lower_char_code:
  "(of_char (lower_char c) :: nat) =
     (let n = of_char c
      in if (65 \<le> n \<and> n \<le> 90) \<or> (192 \<le> n \<and> n \<le> 214) \<or> (216 \<le> n \<and> n \<le> 222)
         then n + 32 else n)"
  by (cases c) (auto simp: lower_char_def Let_def)

section \<open>The parser\<close>

lemmas parse_defs =
  parse_csv_line_def strip_def isspace_def parse_timestamp_def replace_def sample_lib_def
  normalize_weapon_def parse_distance_def startswith_def lower_def lower_char_def
  replace_tzinfo_utc_def

text \<open>
  C8. \<open>parse_csv_line\<close> returns no event exactly when the stripped line has fewer than five
  comma-separated parts, or its first part is rejected both by \<open>fromisoformat\<close> (after
  every \<open>Z\<close> became \<open>+00:00\<close>) and by the pattern \<open>%Y-%m-%d %H:%M:%S\<close>. A distance part
  that is empty, \<open>N/A\<close> or refused by \<open>float\<close> never fails the record: the event has
  distance 0.
\<close>

theorem parse_csv_line_fails_iff:
  "(parse_csv_line L line = None \<longleftrightarrow>
      length (split CHR '','' (strip line)) < 5 \<or>
      (fromisoformat L (replace CHR ''Z'' ''+00:00'' (hd (split CHR '','' (strip line)))) = None \<and>
       strptime L (hd (split CHR '','' (strip line))) = None)) \<and>
   (\<forall>ev. parse_csv_line L line = Some ev \<longrightarrow>
      (let d = split CHR '','' (strip line) ! 4
       in d = [] \<or> d = ''N/A'' \<or> float_of_str L d = None) \<longrightarrow>
      distance ev = 0)"
proof (intro conjI allI impI)
  show "parse_csv_line L line = None \<longleftrightarrow>
      length (split CHR '','' (strip line)) < 5 \<or>
      (fromisoformat L (replace CHR ''Z'' ''+00:00'' (hd (split CHR '','' (strip line)))) = None \<and>
       strptime L (hd (split CHR '','' (strip line))) = None)"
    by (auto simp: parse_csv_line_def parse_timestamp_def Let_def
        split: list.splits option.splits)
next
  fix ev
  assume ok: "parse_csv_line L line = Some ev"
    and d: "let d = split CHR '','' (strip line) ! 4
            in d = [] \<or> d = ''N/A'' \<or> float_of_str L d = None"
  from ok obtain ts k v wp ds rest where
    parts: "split CHR '','' (strip line) = ts # k # v # wp # ds # rest"
    by (auto simp: parse_csv_line_def split: list.splits)
  with ok have "distance ev = parse_distance L ds"
    by (auto simp: parse_csv_line_def Let_def split: option.splits)
  moreover from d parts have "ds = [] \<or> ds = ''N/A'' \<or> float_of_str L ds = None"
    by (simp add: Let_def)
  ultimately show "distance ev = 0"
    by (auto simp: parse_distance_def)
qed

theorem parse_csv_line_fails_iff_witness:
  "length (split CHR '','' (strip ''2024-01-01 00:00:00,Dan,Eve,M4'')) < 5 \<and>
   parse_csv_line sample_lib ''2024-01-01 00:00:00,Dan,Eve,M4'' = None \<and>
   parse_csv_line sample_lib ''yesterday,Dan,Eve,M4,12'' = None \<and>
   (\<exists>ev. parse_csv_line sample_lib ''2024-01-01 00:00:00,Dan,Eve,M4,N/A'' = Some ev \<and>
         split CHR '','' (strip ''2024-01-01 00:00:00,Dan,Eve,M4,N/A'') ! 4 = ''N/A'' \<and>
         distance ev = 0)"
proof -
  have short: "length (split CHR '','' (strip ''2024-01-01 00:00:00,Dan,Eve,M4'')) < 5"
    by (simp add: strip_def isspace_def)
  have bad:
    "fromisoformat sample_lib
       (replace CHR ''Z'' ''+00:00'' (hd (split CHR '','' (strip ''yesterday,Dan,Eve,M4,12'')))) = None \<and>
     strptime sample_lib (hd (split CHR '','' (strip ''yesterday,Dan,Eve,M4,12''))) = None"
    by (simp add: strip_def isspace_def replace_def sample_lib_def)
  have good:
    "5 \<le> length (split CHR '','' (strip ''2024-01-01 00:00:00,Dan,Eve,M4,N/A'')) \<and>
     strptime sample_lib (hd (split CHR '','' (strip ''2024-01-01 00:00:00,Dan,Eve,M4,N/A''))) \<noteq> None"
    by (simp add: strip_def isspace_def sample_lib_def)
  have na: "split CHR '','' (strip ''2024-01-01 00:00:00,Dan,Eve,M4,N/A'') ! 4 = ''N/A''"
    by (simp add: strip_def isspace_def)
  from parse_csv_line_fails_iff [of sample_lib "''2024-01-01 00:00:00,Dan,Eve,M4''"] short
  have a: "parse_csv_line sample_lib ''2024-01-01 00:00:00,Dan,Eve,M4'' = None" by blast
  from parse_csv_line_fails_iff [of sample_lib "''yesterday,Dan,Eve,M4,12''"] bad
  have b: "parse_csv_line sample_lib ''yesterday,Dan,Eve,M4,12'' = None" by blast
  from parse_csv_line_fails_iff [of sample_lib "''2024-01-01 00:00:00,Dan,Eve,M4,N/A''"] good
  have "parse_csv_line sample_lib ''2024-01-01 00:00:00,Dan,Eve,M4,N/A'' \<noteq> None"
    by (metis not_less)
  then obtain ev where
    ev: "parse_csv_line sample_lib ''2024-01-01 00:00:00,Dan,Eve,M4,N/A'' = Some ev"
    by blast
  with parse_csv_line_fails_iff [of sample_lib "''2024-01-01 00:00:00,Dan,Eve,M4,N/A''"] na
  have "distance ev = 0" by (simp add: Let_def)
  with short a b ev na show ?thesis by blast
qed

lemma parse_csv_line_not_blank:
  "parse_csv_line L line = Some kd \<Longrightarrow> strip line \<noteq> []"
  by (auto simp: parse_csv_line_def)

lemma relocation_token:
  "lower w = ''suicide_by_relocation'' \<Longrightarrow> contains ''relocation'' (lower w)"
  by (simp add: startswith_def)

text \<open>
  C3, as the code has it. For every line of at least five parts whose first part is accepted
  as a timestamp, \<open>parse_csv_line\<close> returns an event with
  \<open>is_suicide = (killer = victim or the lower-cased weapon starts with "suicide")\<close>; the
  weapon of a suicide is \<open>Menu Suicide\<close> when the lower-cased weapon contains
  \<open>relocation\<close> and \<open>Suicide\<close> otherwise, and the weapon of any other event is the part
  as it stands. The line \<open>2024-01-01T00:00:00Z,Carl,Carl,Suicide_by_relocation,N/A\<close> gives
  a suicide with weapon \<open>Menu Suicide\<close> and distance 0.
\<close>

theorem parse_csv_line_suicide:
  "(\<forall>L line. 5 \<le> length (split CHR '','' (strip line)) \<longrightarrow>
      parse_timestamp L (hd (split CHR '','' (strip line))) \<noteq> None \<longrightarrow>
      (\<exists>ev. parse_csv_line L line = Some ev \<and>
         (let parts = split CHR '','' (strip line);
              k = parts ! 1; v = parts ! 2; wp = parts ! 3
          in is_suicide ev = (k = v \<or> startswith ''suicide'' (lower wp)) \<and>
             weapon ev =
               (if is_suicide ev
                then (if contains ''relocation'' (lower wp) then ''Menu Suicide'' else ''Suicide'')
                else wp)))) \<and>
   (\<exists>t. parse_csv_line sample_lib ''2024-01-01T00:00:00Z,Carl,Carl,Suicide_by_relocation,N/A'' =
      Some \<lparr> timestamp = t, killer = ''Carl'', victim = ''Carl'', weapon = ''Menu Suicide'',
             distance = 0, is_suicide = True,
             raw_line = ''2024-01-01T00:00:00Z,Carl,Carl,Suicide_by_relocation,N/A'' \<rparr>)"
proof (intro conjI allI impI)
  fix L line
  assume len: "5 \<le> length (split CHR '','' (strip line))"
    and ts: "parse_timestamp L (hd (split CHR '','' (strip line))) \<noteq> None"
  from len obtain a k v wp ds rest where
    parts: "split CHR '','' (strip line) = a # k # v # wp # ds # rest"
    by (auto simp: Suc_le_length_iff numeral_eq_Suc)
  from ts parts obtain t where t: "parse_timestamp L a = Some t" by auto
  show "\<exists>ev. parse_csv_line L line = Some ev \<and>
         (let parts = split CHR '','' (strip line);
              k = parts ! 1; v = parts ! 2; wp = parts ! 3
          in is_suicide ev = (k = v \<or> startswith ''suicide'' (lower wp)) \<and>
             weapon ev =
               (if is_suicide ev
                then (if contains ''relocation'' (lower wp) then ''Menu Suicide'' else ''Suicide'')
                else wp))"
    using parts t relocation_token [of wp]
    by (auto simp: parse_csv_line_def Let_def normalize_weapon_def)
next
  show "\<exists>t. parse_csv_line sample_lib ''2024-01-01T00:00:00Z,Carl,Carl,Suicide_by_relocation,N/A'' =
      Some \<lparr> timestamp = t, killer = ''Carl'', victim = ''Carl'', weapon = ''Menu Suicide'',
             distance = 0, is_suicide = True,
             raw_line = ''2024-01-01T00:00:00Z,Carl,Carl,Suicide_by_relocation,N/A'' \<rparr>"
    by (simp add: parse_defs)
qed

theorem parse_csv_line_suicide_witness:
  "5 \<le> length (split CHR '','' (strip ''2024-01-01T00:00:00Z,Alice,Bob,AK74,150.5'')) \<and>
   parse_timestamp sample_lib
     (hd (split CHR '','' (strip ''2024-01-01T00:00:00Z,Alice,Bob,AK74,150.5''))) \<noteq> None \<and>
   (\<exists>ev. parse_csv_line sample_lib ''2024-01-01T00:00:00Z,Alice,Bob,AK74,150.5'' = Some ev \<and>
         \<not> is_suicide ev \<and> weapon ev = ''AK74'')"
proof -
  have h1: "5 \<le> length (split CHR '','' (strip ''2024-01-01T00:00:00Z,Alice,Bob,AK74,150.5''))"
    by (simp add: strip_def isspace_def)
  have h2: "parse_timestamp sample_lib
     (hd (split CHR '','' (strip ''2024-01-01T00:00:00Z,Alice,Bob,AK74,150.5''))) \<noteq> None"
    by (simp add: parse_defs)
  from parse_csv_line_suicide h1 h2 obtain ev where
    ev: "parse_csv_line sample_lib ''2024-01-01T00:00:00Z,Alice,Bob,AK74,150.5'' = Some ev"
    and p: "let parts = split CHR '','' (strip ''2024-01-01T00:00:00Z,Alice,Bob,AK74,150.5'');
              k = parts ! 1; v = parts ! 2; wp = parts ! 3
          in is_suicide ev = (k = v \<or> startswith ''suicide'' (lower wp)) \<and>
             weapon ev =
               (if is_suicide ev
                then (if contains ''relocation'' (lower wp) then ''Menu Suicide'' else ''Suicide'')
                else wp)"
    by blast
  from p have "\<not> is_suicide ev \<and> weapon ev = ''AK74''"
    by (simp add: Let_def strip_def isspace_def startswith_def lower_def lower_char_def)
  with h1 h2 ev show ?thesis by blast
qed

text \<open>
  C3 as it is written, for every line of at least five parts, fails where the timestamp is
  rejected: \<open>x,a,b,c,d\<close> has five parts and no event.
\<close>

theorem parse_csv_line_suicide_counterexample:
  "\<not> (\<forall>L line. 5 \<le> length (split CHR '','' (strip line)) \<longrightarrow>
        (\<exists>ev. parse_csv_line L line = Some ev \<and>
           (let parts = split CHR '','' (strip line);
                k = parts ! 1; v = parts ! 2; wp = parts ! 3
            in is_suicide ev = (k = v \<or> startswith ''suicide'' (lower wp)) \<and>
               weapon ev =
                 (if is_suicide ev
                  then (if contains ''relocation'' (lower wp) then ''Menu Suicide'' else ''Suicide'')
                  else wp))))"
proof
  assume "\<forall>L line. 5 \<le> length (split CHR '','' (strip line)) \<longrightarrow>
        (\<exists>ev. parse_csv_line L line = Some ev \<and>
           (let parts = split CHR '','' (strip line);
                k = parts ! 1; v = parts ! 2; wp = parts ! 3
            in is_suicide ev = (k = v \<or> startswith ''suicide'' (lower wp)) \<and>
               weapon ev =
                 (if is_suicide ev
                  then (if contains ''relocation'' (lower wp) then ''Menu Suicide'' else ''Suicide'')
                  else wp)))"
  then have "5 \<le> length (split CHR '','' (strip ''x,a,b,c,d'')) \<longrightarrow>
        (\<exists>ev. parse_csv_line sample_lib ''x,a,b,c,d'' = Some ev)"
    by blast
  then show False by (simp add: parse_defs)
qed

section \<open>The aggregator\<close>

lemma store_call_frame:
  "store_call w = (b, w') \<Longrightarrow>
     pvp_data w' = pvp_data w \<and> kill_events w' = kill_events w \<and> now w' = now w \<and>
     parsed_lines w' = parsed_lines w \<and> active_refreshes w' = active_refreshes w"
  by (auto simp: store_call_def split: list.splits)

lemma calc_kdr_frame:
  "calc_kdr key su w = (r, w') \<Longrightarrow>
     pvp_data w' = pvp_data w \<and> kill_events w' = kill_events w \<and> now w' = now w \<and>
     parsed_lines w' = parsed_lines w \<and> active_refreshes w' = active_refreshes w"
  by (auto simp: calc_kdr_def Let_def dest!: store_call_frame
      split: if_splits prod.splits bool.splits option.splits)

lemma update_pvp_stats_frame:
  "update_pvp_stats P g s p su w = (b, w') \<Longrightarrow>
     kill_events w' = kill_events w \<and> now w' = now w \<and>
     parsed_lines w' = parsed_lines w \<and> active_refreshes w' = active_refreshes w"
  by (auto simp: update_pvp_stats_def Let_def dest!: store_call_frame calc_kdr_frame
      split: prod.splits bool.splits option.splits)

lemma update_pvp_stats_frame_snd [simp]:
  "kill_events (snd (update_pvp_stats P g s p su w)) = kill_events w"
  "now (snd (update_pvp_stats P g s p su w)) = now w"
  "parsed_lines (snd (update_pvp_stats P g s p su w)) = parsed_lines w"
  "active_refreshes (snd (update_pvp_stats P g s p su w)) = active_refreshes w"
  using update_pvp_stats_frame [of P g s p su w] by (cases "update_pvp_stats P g s p su w"; simp)+

lemma add_kill_event_frame_snd [simp]:
  "pvp_data (snd (add_kill_event g s kd w)) = pvp_data w"
  "now (snd (add_kill_event g s kd w)) = now w"
  "parsed_lines (snd (add_kill_event g s kd w)) = parsed_lines w"
  "active_refreshes (snd (add_kill_event g s kd w)) = active_refreshes w"
  by (auto simp: add_kill_event_def dest!: store_call_frame split: prod.splits bool.splits)

lemma store_call_frame_snd [simp]:
  "pvp_data (snd (store_call w)) = pvp_data w"
  "kill_events (snd (store_call w)) = kill_events w"
  "now (snd (store_call w)) = now w"
  "parsed_lines (snd (store_call w)) = parsed_lines w"
  "active_refreshes (snd (store_call w)) = active_refreshes w"
  by (auto simp: store_call_def split: list.splits)

lemma alice_parses: "parse_csv_line sample_lib alice_line = Some alice_kills_bob"
  by (simp add: alice_line_def alice_kills_bob_def parse_defs)

lemma carl_parses: "parse_csv_line sample_lib carl_line = Some carl_suicide"
  by (simp add: carl_line_def carl_suicide_def parse_defs)

lemma dan_parses: "parse_csv_line sample_lib dan_line = Some dan_kills_eve"
  by (simp add: dan_line_def dan_kills_eve_def parse_defs)

lemma calc_kdr_inc: "calc_kdr key (inc field) w = (Some (inc field), w)"
  by (simp add: calc_kdr_def inc_def)

lemma update_conflict_inc:
  "update_conflict soi (AList.update ''last_updated'' v (inc field))"
  by (simp add: update_conflict_def inc_def startswith_def)

lemma update_pvp_stats_inc_rejected:
  "update_pvp_stats RejectConflicts g s p (inc field) w = (False, snd (store_call w))"
  by (simp add: update_pvp_stats_def calc_kdr_inc update_one_def update_conflict_inc
      split: prod.splits bool.splits)

lemmas eval_defs =
  process_kill_event_def add_kill_event_def store_call_def empty_world_def
  update_pvp_stats_def calc_kdr_def inc_def update_one_def update_conflict_def player_stat_def
  find_one_def matches_def default_stats_def stats_key_def startswith_def
  send_killfeed_embed_def Let_def dict_update_def kill_event_def kill_data_items_def

lemma map_of_dict_update_other:
  "k \<notin> fst ` set upd \<Longrightarrow> map_of (dict_update d upd) k = map_of d k"
  unfolding dict_update_def
  by (induction upd arbitrary: d) (auto simp: update_conv')

lemma matches_dict_update:
  "fst ` set flt \<inter> fst ` set upd = {} \<Longrightarrow> matches flt (dict_update d upd) = matches flt d"
  by (induction flt) (auto simp: matches_def map_of_dict_update_other)

lemma find_update_first_stat:
  assumes "\<And>d. q (f d) = q d" and "\<And>d. h (f d) = h d"
  shows "(case List.find q (update_first p f c) of None \<Rightarrow> None | Some d \<Rightarrow> h d) =
         (case List.find q c of None \<Rightarrow> None | Some d \<Rightarrow> h d)"
  by (induction c) (auto simp: assms)

lemma find_snoc:
  "List.find q (c @ [d]) =
     (case List.find q c of Some x \<Rightarrow> Some x | None \<Rightarrow> if q d then Some d else None)"
  by (induction c) auto

lemma frozen_refl [simp]: "frozen a a field"
  by (simp add: frozen_def)

lemma frozen_trans: "frozen a b field \<Longrightarrow> frozen b c field \<Longrightarrow> frozen a c field"
  by (auto simp: frozen_def)

lemma update_pvp_stats_inc_frozen:
  assumes "field \<in> {''kills'', ''deaths'', ''suicides'', ''kdr''}"
  shows "frozen (player_stat w g' s' p' field)
           (player_stat (snd (update_pvp_stats P g s p (inc f) w)) g' s' p' field) field"
proof (cases P)
  case RejectConflicts
  then show ?thesis
    by (simp add: update_pvp_stats_inc_rejected player_stat_def)
next
  case LastWriteWins
  obtain b w2 where sc: "store_call w = (b, w2)" by (cases "store_call w")
  from store_call_frame [OF sc] have same: "pvp_data w2 = pvp_data w" and n2: "now w2 = now w" by simp_all
  show ?thesis
  proof (cases b)
    case True
    with sc same show ?thesis
      by (simp add: update_pvp_stats_def calc_kdr_inc Let_def player_stat_def)
  next
    case False
    define su where "su = AList.update ''last_updated'' (VTime (now w)) (inc f)"
    define key where "key = stats_key g s p"
    define key' where "key' = stats_key g' s' p'"
    have su_keys: "fst ` set su = {''$inc'', ''last_updated''}"
      by (auto simp: su_def inc_def)
    have fld: "field \<notin> fst ` set su"
      using assms su_keys by auto
    have disj: "fst ` set key' \<inter> fst ` set su = {}"
      using su_keys by (auto simp: key'_def stats_key_def)
    have res: "snd (update_pvp_stats P g s p (inc f) w) =
        w2\<lparr>pvp_data := (if list_ex (matches key) (pvp_data w)
              then update_first (matches key) (\<lambda>d. dict_update d su) (pvp_data w)
              else pvp_data w @ [dict_update (dict_update key (default_stats g s p (now w))) su])\<rparr>"
      using sc False LastWriteWins same n2
      by (simp add: update_pvp_stats_def calc_kdr_inc Let_def update_one_def su_def key_def)
    show ?thesis
    proof (cases "list_ex (matches key) (pvp_data w)")
      case True
      have "player_stat (snd (update_pvp_stats P g s p (inc f) w)) g' s' p' field =
          player_stat w g' s' p' field"
        unfolding res player_stat_def find_one_def
        using True
        by (simp add: key'_def [symmetric] find_update_first_stat
            [where q = "matches key'" and h = "\<lambda>d. map_of d field"]
            matches_dict_update [OF disj] map_of_dict_update_other [OF fld])
      then show ?thesis by simp
    next
      case nomatch: False
      define nd where "nd = dict_update (dict_update key (default_stats g s p (now w))) su"
      have z: "map_of nd field = Some (zero_of field)"
      proof -
        have "map_of nd field = map_of (dict_update key (default_stats g s p (now w))) field"
          by (simp add: nd_def map_of_dict_update_other [OF fld])
        also have "\<dots> = Some (zero_of field)"
          using assms
          by (auto simp: key_def default_stats_def stats_key_def zero_of_def dict_update_def)
        finally show ?thesis .
      qed
      have "frozen (player_stat w g' s' p' field)
          (case List.find (matches key') (pvp_data w @ [nd]) of None \<Rightarrow> None | Some d \<Rightarrow> map_of d field)
          field"
        by (auto simp: find_snoc player_stat_def find_one_def key'_def z frozen_def split: option.splits)
      then show ?thesis
        unfolding res using nomatch
        by (simp add: player_stat_def find_one_def key'_def nd_def)
    qed
  qed
qed

lemma process_kill_event_frozen:
  assumes "field \<in> {''kills'', ''deaths'', ''suicides'', ''kdr''}"
  shows "frozen (player_stat w g' s' p' field)
           (player_stat (process_kill_event P g s kd w) g' s' p' field) field"
proof -
  define w1 where "w1 = snd (add_kill_event g s kd w)"
  have a: "player_stat w1 g' s' p' field = player_stat w g' s' p' field"
    by (simp add: w1_def player_stat_def)
  show ?thesis
  proof (cases "is_suicide kd")
    case True
    then have "player_stat (process_kill_event P g s kd w) g' s' p' field =
        player_stat (snd (update_pvp_stats P g s (victim kd) (inc ''suicides'') w1)) g' s' p' field"
      by (simp add: process_kill_event_def send_killfeed_embed_def Let_def w1_def player_stat_def)
    with update_pvp_stats_inc_frozen [OF assms, of w1 g' s' p' P g s "victim kd" "''suicides''"] a
    show ?thesis by simp
  next
    case False
    define w2 where "w2 = snd (update_pvp_stats P g s (killer kd) (inc ''kills'') w1)"
    from False have e: "player_stat (process_kill_event P g s kd w) g' s' p' field =
        player_stat (snd (update_pvp_stats P g s (victim kd) (inc ''deaths'') w2)) g' s' p' field"
      by (simp add: process_kill_event_def send_killfeed_embed_def Let_def w1_def w2_def player_stat_def)
    have b: "frozen (player_stat w g' s' p' field) (player_stat w2 g' s' p' field) field"
      using update_pvp_stats_inc_frozen [OF assms, of w1 g' s' p' P g s "killer kd" "''kills''"] a
      by (simp add: w2_def)
    have c: "frozen (player_stat w2 g' s' p' field)
        (player_stat (snd (update_pvp_stats P g s (victim kd) (inc ''deaths'') w2)) g' s' p' field) field"
      by (rule update_pvp_stats_inc_frozen [OF assms])
    from frozen_trans [OF b c] e show ?thesis by simp
  qed
qed

lemma refresh_line_frozen:
  assumes "field \<in> {''kills'', ''deaths'', ''suicides'', ''kdr''}"
  shows "frozen (player_stat w g' s' p' field)
           (player_stat (snd (refresh_line P L g s line (n, w))) g' s' p' field) field"
proof (cases "strip line = [] \<or> parse_csv_line L line = None")
  case True
  then show ?thesis by (auto simp: refresh_line_def)
next
  case False
  then obtain kd where kd: "parse_csv_line L line = Some kd" and nb: "strip line \<noteq> []" by auto
  define w1 where "w1 = snd (add_kill_event g s kd w)"
  define w2 where
    "w2 = (if \<not> is_suicide kd then snd (update_pvp_stats P g s (killer kd) (inc ''kills'') w1) else w1)"
  define f where "f = (if \<not> is_suicide kd then ''deaths'' else ''suicides'')"
  have a: "player_stat w1 g' s' p' field = player_stat w g' s' p' field"
    by (simp add: w1_def player_stat_def)
  have e: "snd (refresh_line P L g s line (n, w)) = snd (update_pvp_stats P g s (victim kd) (inc f) w2)"
    using kd nb by (simp add: refresh_line_def Let_def w1_def w2_def f_def)
  have b: "frozen (player_stat w g' s' p' field) (player_stat w2 g' s' p' field) field"
    using update_pvp_stats_inc_frozen [OF assms, of w1 g' s' p' P g s "killer kd" "''kills''"] a
    by (simp add: w2_def)
  have c: "frozen (player_stat w2 g' s' p' field)
      (player_stat (snd (update_pvp_stats P g s (victim kd) (inc f) w2)) g' s' p' field) field"
    by (rule update_pvp_stats_inc_frozen [OF assms])
  from frozen_trans [OF b c] e show ?thesis by simp
qed

lemma record_step_refl [simp]: "record_step b b"
  by (cases b) (simp_all add: record_step_def list_all_iff)

lemma record_step_trans: "record_step a b \<Longrightarrow> record_step b c \<Longrightarrow> record_step a c"
  by (cases a; cases b; cases c) (auto simp: record_step_def list_all_iff)

lemma find_update_first_rel:
  assumes "\<And>d. q (F d) = q d"
  shows "rel_option (\<lambda>d d'. d' = d \<or> d' = F d) (List.find q c) (List.find q (update_first p F c))"
  by (induction c) (auto simp: assms intro!: option.rel_refl)

lemma record_step_find_update_first:
  assumes "\<And>d. q (F d) = q d" and "\<And>d f. f \<in> set counters \<Longrightarrow> map_of (F d) f = map_of d f"
  shows "record_step (List.find q c) (List.find q (update_first p F c))"
  using find_update_first_rel [of q F c p, OF assms(1)] assms(2)
  by (cases "List.find q c"; cases "List.find q (update_first p F c)")
     (auto simp: record_step_def list_all_iff)

lemma update_pvp_stats_inc_cases:
  "pvp_data (snd (update_pvp_stats P g s p (inc f) w)) = pvp_data w \<or>
   pvp_data (snd (update_pvp_stats P g s p (inc f) w)) =
     (let su = AList.update ''last_updated'' (VTime (now w)) (inc f); key = stats_key g s p
      in if list_ex (matches key) (pvp_data w)
         then update_first (matches key) (\<lambda>d. dict_update d su) (pvp_data w)
         else pvp_data w @ [dict_update (dict_update key (default_stats g s p (now w))) su])"
proof (cases P)
  case RejectConflicts
  then show ?thesis by (simp add: update_pvp_stats_inc_rejected)
next
  case LastWriteWins
  obtain b w2 where sc: "store_call w = (b, w2)" by (cases "store_call w")
  from store_call_frame [OF sc] have same: "pvp_data w2 = pvp_data w" and n2: "now w2 = now w"
    by simp_all
  show ?thesis
    using sc LastWriteWins same n2
    by (cases b) (simp_all add: update_pvp_stats_def calc_kdr_inc Let_def update_one_def)
qed

lemma new_record_counters:
  "f' \<in> set counters \<Longrightarrow>
     map_of (dict_update (dict_update (stats_key g s p) (default_stats g s p t))
               (AList.update ''last_updated'' v (inc f))) f' = Some (zero_of f')"
proof -
  assume c: "f' \<in> set counters"
  then have "f' \<notin> fst ` set (AList.update ''last_updated'' v (inc f))"
    by (auto simp: counters_def inc_def)
  then have "map_of (dict_update (dict_update (stats_key g s p) (default_stats g s p t))
               (AList.update ''last_updated'' v (inc f))) f' =
             map_of (dict_update (stats_key g s p) (default_stats g s p t)) f'"
    by (rule map_of_dict_update_other)
  also have "\<dots> = Some (zero_of f')"
    using c by (auto simp: counters_def default_stats_def stats_key_def zero_of_def dict_update_def)
  finally show ?thesis .
qed

lemma upd_keeps_counters:
  "f' \<in> set counters \<Longrightarrow>
     map_of (dict_update d (AList.update ''last_updated'' v (inc f))) f' = map_of d f'"
  by (rule map_of_dict_update_other) (auto simp: counters_def inc_def)

lemma upd_keeps_key:
  "matches (stats_key g' s' p') (dict_update d (AList.update ''last_updated'' v (inc f))) =
     matches (stats_key g' s' p') d"
  by (rule matches_dict_update) (auto simp: stats_key_def inc_def)

lemma update_pvp_stats_inc_record_step:
  "record_step (find_one (stats_key g' s' p') (pvp_data w))
     (find_one (stats_key g' s' p') (pvp_data (snd (update_pvp_stats P g s p (inc f) w))))"
proof -
  define su where "su = AList.update ''last_updated'' (VTime (now w)) (inc f)"
  define nd where "nd = dict_update (dict_update (stats_key g s p) (default_stats g s p (now w))) su"
  from update_pvp_stats_inc_cases [of P g s p f w]
  consider "pvp_data (snd (update_pvp_stats P g s p (inc f) w)) = pvp_data w"
    | "pvp_data (snd (update_pvp_stats P g s p (inc f) w)) =
         update_first (matches (stats_key g s p)) (\<lambda>d. dict_update d su) (pvp_data w)"
    | "pvp_data (snd (update_pvp_stats P g s p (inc f) w)) = pvp_data w @ [nd]"
    by (auto simp: Let_def su_def nd_def split: if_splits)
  then show ?thesis
  proof cases
    case 1
    then show ?thesis by simp
  next
    case 2
    show ?thesis
      unfolding 2 find_one_def su_def
      by (rule record_step_find_update_first) (simp_all add: upd_keeps_key upd_keeps_counters)
  next
    case 3
    have "list_all (\<lambda>f'. map_of nd f' = Some (zero_of f')) counters"
      unfolding nd_def su_def list_all_iff using new_record_counters by blast
    then show ?thesis
      unfolding 3 find_one_def
      by (cases "List.find (matches (stats_key g' s' p')) (pvp_data w)")
         (auto simp: find_snoc record_step_def list_all_iff)
  qed
qed


lemma refresh_line_record_step:
  "record_step (find_one (stats_key g' s' p') (pvp_data (snd acc)))
     (find_one (stats_key g' s' p') (pvp_data (snd (refresh_line P L g s line acc))))"
proof (cases "strip line = [] \<or> parse_csv_line L line = None")
  case True
  then show ?thesis by (cases acc) (auto simp: refresh_line_def)
next
  case False
  obtain n w where acc: "acc = (n, w)" by (cases acc)
  from False obtain kd where kd: "parse_csv_line L line = Some kd" and nb: "strip line \<noteq> []" by auto
  define w1 where "w1 = snd (add_kill_event g s kd w)"
  define w2 where
    "w2 = (if \<not> is_suicide kd then snd (update_pvp_stats P g s (killer kd) (inc ''kills'') w1) else w1)"
  define f where "f = (if \<not> is_suicide kd then ''deaths'' else ''suicides'')"
  have a: "pvp_data w1 = pvp_data w" by (simp add: w1_def)
  have e: "snd (refresh_line P L g s line acc) = snd (update_pvp_stats P g s (victim kd) (inc f) w2)"
    using kd nb by (simp add: acc refresh_line_def Let_def w1_def w2_def f_def)
  have b: "record_step (find_one (stats_key g' s' p') (pvp_data w))
      (find_one (stats_key g' s' p') (pvp_data w2))"
    using update_pvp_stats_inc_record_step [of g' s' p' w1 P g s "killer kd" "''kills''"] a
    by (simp add: w2_def)
  have c: "record_step (find_one (stats_key g' s' p') (pvp_data w2))
      (find_one (stats_key g' s' p') (pvp_data (snd (update_pvp_stats P g s (victim kd) (inc f) w2))))"
    by (rule update_pvp_stats_inc_record_step)
  from record_step_trans [OF b c] e acc show ?thesis by simp
qed

lemma refresh_lines_record_step:
  "record_step (find_one (stats_key g' s' p') (pvp_data (snd acc)))
     (find_one (stats_key g' s' p') (pvp_data (snd (refresh_lines P L g s lines acc))))"
proof (induction lines arbitrary: acc)
  case Nil
  then show ?case by (simp add: refresh_lines_def)
next
  case (Cons line lines)
  from record_step_trans [OF refresh_line_record_step Cons.IH [of "refresh_line P L g s line acc"]]
  show ?case by (simp add: refresh_lines_def)
qed











text \<open>
  C2 asks that a PvP kill adds 1 to the killer's kills and 1 to the victim's deaths, and a
  suicide 1 to the victim's suicides. \<open>update_pvp_stats\<close> puts the \<open>{"$inc": {...}}\<close> it
  is given under \<open>$set\<close> (database.py 181), beside a \<open>$setOnInsert\<close> that names
  \<open>last_updated\<close> as well. On both paths, under both store policies and in every state,
  the kills, deaths and suicides of every player are after an event what they were before,
  or the default 0 of a record that was not there: no counter decreases, and none grows.
  On an empty store, after the event of \<open>alice_line\<close> and after the event of
  \<open>carl_line\<close>: a store that refuses the write has no record at all, and a store that
  takes it has kills, deaths and suicides at 0.
\<close>

theorem counters_not_incremented:
  "frozen (player_stat w g' s' p' ''kills'')
     (player_stat (process_kill_event P g s kd w) g' s' p' ''kills'') ''kills'' \<and>
   frozen (player_stat w g' s' p' ''deaths'')
     (player_stat (process_kill_event P g s kd w) g' s' p' ''deaths'') ''deaths'' \<and>
   frozen (player_stat w g' s' p' ''suicides'')
     (player_stat (process_kill_event P g s kd w) g' s' p' ''suicides'') ''suicides'' \<and>
   frozen (player_stat w g' s' p' ''kills'')
     (player_stat (snd (refresh_line P L g s line (n, w))) g' s' p' ''kills'') ''kills'' \<and>
   frozen (player_stat w g' s' p' ''deaths'')
     (player_stat (snd (refresh_line P L g s line (n, w))) g' s' p' ''deaths'') ''deaths'' \<and>
   frozen (player_stat w g' s' p' ''suicides'')
     (player_stat (snd (refresh_line P L g s line (n, w))) g' s' p' ''suicides'') ''suicides'' \<and>
   parse_csv_line sample_lib alice_line = Some alice_kills_bob \<and>
   pvp_data (process_kill_event RejectConflicts 1 ''s1'' alice_kills_bob empty_world) = [] \<and>
   player_stat (process_kill_event LastWriteWins 1 ''s1'' alice_kills_bob empty_world)
     1 ''s1'' ''Alice'' ''kills'' = Some (VInt 0) \<and>
   player_stat (process_kill_event LastWriteWins 1 ''s1'' alice_kills_bob empty_world)
     1 ''s1'' ''Bob'' ''deaths'' = Some (VInt 0) \<and>
   parse_csv_line sample_lib carl_line = Some carl_suicide \<and>
   pvp_data (process_kill_event RejectConflicts 1 ''s1'' carl_suicide empty_world) = [] \<and>
   player_stat (process_kill_event LastWriteWins 1 ''s1'' carl_suicide empty_world)
     1 ''s1'' ''Carl'' ''suicides'' = Some (VInt 0)"
proof -
  have g1: "frozen (player_stat w g' s' p' ''kills'')
     (player_stat (process_kill_event P g s kd w) g' s' p' ''kills'') ''kills''"
    by (rule process_kill_event_frozen) simp
  have g2: "frozen (player_stat w g' s' p' ''deaths'')
     (player_stat (process_kill_event P g s kd w) g' s' p' ''deaths'') ''deaths''"
    by (rule process_kill_event_frozen) simp
  have g3: "frozen (player_stat w g' s' p' ''suicides'')
     (player_stat (process_kill_event P g s kd w) g' s' p' ''suicides'') ''suicides''"
    by (rule process_kill_event_frozen) simp
  have h1: "frozen (player_stat w g' s' p' ''kills'')
     (player_stat (snd (refresh_line P L g s line (n, w))) g' s' p' ''kills'') ''kills''"
    by (rule refresh_line_frozen) simp
  have h2: "frozen (player_stat w g' s' p' ''deaths'')
     (player_stat (snd (refresh_line P L g s line (n, w))) g' s' p' ''deaths'') ''deaths''"
    by (rule refresh_line_frozen) simp
  have h3: "frozen (player_stat w g' s' p' ''suicides'')
     (player_stat (snd (refresh_line P L g s line (n, w))) g' s' p' ''suicides'') ''suicides''"
    by (rule refresh_line_frozen) simp
  have a: "pvp_data (process_kill_event RejectConflicts 1 ''s1'' alice_kills_bob empty_world) = []"
    by (simp add: eval_defs alice_kills_bob_def)
  have b: "player_stat (process_kill_event LastWriteWins 1 ''s1'' alice_kills_bob empty_world)
     1 ''s1'' ''Alice'' ''kills'' = Some (VInt 0)"
    by (simp add: eval_defs alice_kills_bob_def)
  have c: "player_stat (process_kill_event LastWriteWins 1 ''s1'' alice_kills_bob empty_world)
     1 ''s1'' ''Bob'' ''deaths'' = Some (VInt 0)"
    by (simp add: eval_defs alice_kills_bob_def)
  have d: "pvp_data (process_kill_event RejectConflicts 1 ''s1'' carl_suicide empty_world) = []"
    by (simp add: eval_defs alice_kills_bob_def carl_suicide_def)
  have e: "player_stat (process_kill_event LastWriteWins 1 ''s1'' carl_suicide empty_world)
     1 ''s1'' ''Carl'' ''suicides'' = Some (VInt 0)"
    by (simp add: eval_defs carl_suicide_def)
  from g1 g2 g3 h1 h2 h3 alice_parses carl_parses a b c d e show ?thesis by blast
qed

section \<open>Incremental mode\<close>

lemma process_kill_event_frame [simp]:
  "now (process_kill_event P g s kd w) = now w"
  "parsed_lines (process_kill_event P g s kd w) = parsed_lines w"
  "active_refreshes (process_kill_event P g s kd w) = active_refreshes w"
  by (simp_all add: process_kill_event_def send_killfeed_embed_def Let_def)

lemma lines_seen_process [simp]:
  "lines_seen (process_kill_event P g s kd w) key = lines_seen w key"
  by (simp add: lines_seen_def)

lemma process_kill_event_kill_events:
  "kill_events (process_kill_event P g s kd w) = kill_events (snd (add_kill_event g s kd w))"
  by (simp add: process_kill_event_def send_killfeed_embed_def Let_def)

lemma killfeed_line_seen:
  "line \<in> lines_seen w (server_key g sid) \<Longrightarrow> killfeed_line P L g sid line (n, w) = (n, w)"
  by (simp add: killfeed_line_def mark_seen_def)

lemma killfeed_line_marks:
  assumes "strip line \<noteq> []" "parse_csv_line L line \<noteq> None"
  shows "line \<in> lines_seen (snd (killfeed_line P L g sid line (n, w))) (server_key g sid)"
  using assms by (auto simp: killfeed_line_def mark_seen_def lines_seen_def Let_def)


lemma killfeed_line_snd_count:
  "snd (killfeed_line P L g sid line (m, w)) = snd (killfeed_line P L g sid line (n, w))"
  by (auto simp: killfeed_line_def mark_seen_def Let_def split: option.splits)

lemma killfeed_line_seen_mono:
  "lines_seen w key \<subseteq> lines_seen (snd (killfeed_line P L g sid line (n, w))) key"
  by (auto simp: killfeed_line_def mark_seen_def lines_seen_def Let_def split: option.splits)















lemma killfeed_lines_seen_mono:
  "lines_seen (snd acc) key \<subseteq> lines_seen (snd (killfeed_lines P L g sid lines acc)) key"
proof (induction lines arbitrary: acc)
  case Nil
  then show ?case by (simp add: killfeed_lines_def)
next
  case (Cons line lines)
  obtain n w where acc: "acc = (n, w)" by (cases acc)
  have "lines_seen (snd acc) key \<subseteq> lines_seen (snd (killfeed_line P L g sid line acc)) key"
    unfolding acc using killfeed_line_seen_mono by simp
  also have "\<dots> \<subseteq> lines_seen (snd (killfeed_lines P L g sid lines (killfeed_line P L g sid line acc))) key"
    by (rule Cons.IH)
  finally show ?case by (simp add: killfeed_lines_def)
qed

lemma parse_server_killfeed_seen_mono:
  "lines_seen w key \<subseteq> lines_seen (parse_server_killfeed P L g cfg lines w) key"
proof -
  define k0 where "k0 = server_key g (server_id_of cfg)"
  define w1 where
    "w1 = (if parsed_lines w k0 = None then w\<lparr>parsed_lines := (parsed_lines w)(k0 \<mapsto> {})\<rparr> else w)"
  have "lines_seen w1 key = lines_seen w key"
    by (auto simp: w1_def lines_seen_def)
  moreover have "lines_seen (snd (0::nat, w1)) key \<subseteq>
      lines_seen (snd (killfeed_lines P L g (server_id_of cfg) lines (0, w1))) key"
    by (rule killfeed_lines_seen_mono)
  ultimately show ?thesis
    by (auto simp: parse_server_killfeed_def Let_def w1_def k0_def)
qed

lemma later_runs_seen_mono:
  "lines_seen w key \<subseteq> lines_seen (later_runs P L g cfg batches w) key"
proof (induction batches arbitrary: w)
  case Nil
  then show ?case by (simp add: later_runs_def)
next
  case (Cons ls batches)
  have "lines_seen w key \<subseteq> lines_seen (parse_server_killfeed P L g cfg ls w) key"
    by (rule parse_server_killfeed_seen_mono)
  also have "\<dots> \<subseteq> lines_seen (later_runs P L g cfg batches (parse_server_killfeed P L g cfg ls w)) key"
    by (rule Cons.IH)
  finally show ?case by (simp add: later_runs_def)
qed

lemma add_kill_event_fault:
  "faults w = True # fs \<Longrightarrow> add_kill_event g s kd w = (False, w\<lparr>faults := fs\<rparr>)"
  by (simp add: add_kill_event_def store_call_def)

text \<open>
  C10. A line that parses is in the set of its server after the pass,
  whatever the outcomes of the store calls. When the line was new and the insert of its
  event raised, the kill-event log is as it was before the pass. After any later passes
  over that server the line is still in the set, and a turn of the loop on it leaves the
  state and the count as they are.
\<close>

theorem line_marked_seen_despite_faults:
  assumes "parse_csv_line L line = Some kd"
  shows "line \<in> lines_seen (parse_server_killfeed P L g cfg [line] w) (server_key g (server_id_of cfg)) \<and>
    (line \<notin> lines_seen w (server_key g (server_id_of cfg)) \<and> faults w = True # fs \<longrightarrow>
       kill_events (parse_server_killfeed P L g cfg [line] w) = kill_events w) \<and>
    (let w' = later_runs P L g cfg batches (parse_server_killfeed P L g cfg [line] w)
     in line \<in> lines_seen w' (server_key g (server_id_of cfg)) \<and>
        killfeed_line P L g (server_id_of cfg) line (n, w') = (n, w'))"
proof -
  define key where "key = server_key g (server_id_of cfg)"
  define w1 where
    "w1 = (if parsed_lines w key = None then w\<lparr>parsed_lines := (parsed_lines w)(key \<mapsto> {})\<rparr> else w)"
  from assms have nb: "strip line \<noteq> []"
    by (rule parse_csv_line_not_blank)
  have once: "parse_server_killfeed P L g cfg [line] w =
      snd (killfeed_line P L g (server_id_of cfg) line (0, w1))"
    by (simp add: parse_server_killfeed_def killfeed_lines_def Let_def w1_def key_def)
  have seen1: "lines_seen w1 key = lines_seen w key"
    by (auto simp: w1_def lines_seen_def)
  have marked: "line \<in> lines_seen (parse_server_killfeed P L g cfg [line] w) key"
    unfolding once key_def using assms nb by (intro killfeed_line_marks) auto
  have dropped: "kill_events (parse_server_killfeed P L g cfg [line] w) = kill_events w"
    if "line \<notin> lines_seen w key" and "faults w = True # fs"
  proof -
    from that have f1: "faults w1 = True # fs" and u1: "line \<notin> lines_seen w1 key"
      and k1: "kill_events w1 = kill_events w"
      using seen1 by (auto simp: w1_def)
    show ?thesis
      unfolding once using assms nb u1 k1
      by (simp add: killfeed_line_def mark_seen_def key_def Let_def process_kill_event_kill_events
          add_kill_event_fault [OF f1])
  qed
  define w' where "w' = later_runs P L g cfg batches (parse_server_killfeed P L g cfg [line] w)"
  have later: "line \<in> lines_seen w' key"
    unfolding w'_def using marked later_runs_seen_mono by blast
  then have "killfeed_line P L g (server_id_of cfg) line (n, w') = (n, w')"
    unfolding key_def by (rule killfeed_line_seen)
  with marked dropped later show ?thesis
    by (simp add: key_def w'_def Let_def)
qed

theorem line_marked_seen_despite_faults_witness:
  "parse_csv_line sample_lib alice_line = Some alice_kills_bob \<and>
   alice_line \<notin> lines_seen (empty_world\<lparr>faults := [True]\<rparr>) (server_key 1 (server_id_of s1)) \<and>
   alice_line \<in> lines_seen
     (parse_server_killfeed LastWriteWins sample_lib 1 s1 [alice_line] (empty_world\<lparr>faults := [True]\<rparr>))
     (server_key 1 (server_id_of s1)) \<and>
   kill_events
     (parse_server_killfeed LastWriteWins sample_lib 1 s1 [alice_line] (empty_world\<lparr>faults := [True]\<rparr>)) = []"
proof -
  have h2: "alice_line \<notin> lines_seen (empty_world\<lparr>faults := [True]\<rparr>) (server_key 1 (server_id_of s1))"
    by (simp add: lines_seen_def empty_world_def)
  have h3: "faults (empty_world\<lparr>faults := [True]\<rparr>) = True # []"
    by simp
  have h4: "kill_events (empty_world\<lparr>faults := [True]\<rparr>) = []"
    by (simp add: empty_world_def)
  from line_marked_seen_despite_faults
    [OF alice_parses, of LastWriteWins 1 s1 "empty_world\<lparr>faults := [True]\<rparr>" "[]" "[]" 0]
    h2 h3 h4 alice_parses
  show ?thesis by simp
qed

section \<open>Historical mode\<close>

lemma store_call_ok:
  "True \<notin> set (faults w) \<Longrightarrow>
     fst (store_call w) = False \<and> True \<notin> set (faults (snd (store_call w)))"
  by (auto simp: store_call_def split: list.splits)

lemma store_call_okE:
  "store_call w = (b, w') \<Longrightarrow> True \<notin> set (faults w) \<Longrightarrow> \<not> b \<and> True \<notin> set (faults w')"
  using store_call_ok [of w] by simp

lemma calc_kdr_ok:
  "calc_kdr key su w = (r, w') \<Longrightarrow> True \<notin> set (faults w) \<Longrightarrow> True \<notin> set (faults w')"
  by (auto simp: calc_kdr_def Let_def dest!: store_call_okE
      split: if_splits prod.splits bool.splits option.splits)

lemma update_pvp_stats_ok:
  "True \<notin> set (faults w) \<Longrightarrow> True \<notin> set (faults (snd (update_pvp_stats P g s p su w)))"
  by (auto simp: update_pvp_stats_def Let_def dest!: store_call_okE calc_kdr_ok
      split: prod.splits bool.splits option.splits)

lemma add_kill_event_ok:
  "True \<notin> set (faults w) \<Longrightarrow>
     kill_events (snd (add_kill_event g s kd w)) = kill_events w @ [kill_event g s (now w) kd] \<and>
     True \<notin> set (faults (snd (add_kill_event g s kd w)))"
  by (auto simp: add_kill_event_def store_call_def split: list.splits)

lemma refresh_line_frame [simp]:
  "now (snd (refresh_line P L g sid line acc)) = now (snd acc)"
  "parsed_lines (snd (refresh_line P L g sid line acc)) = parsed_lines (snd acc)"
  "active_refreshes (snd (refresh_line P L g sid line acc)) = active_refreshes (snd acc)"
  by (auto simp: refresh_line_def Let_def split: prod.splits option.splits)

lemma refresh_lines_frame [simp]:
  "now (snd (refresh_lines P L g sid lines acc)) = now (snd acc)"
  "parsed_lines (snd (refresh_lines P L g sid lines acc)) = parsed_lines (snd acc)"
  "active_refreshes (snd (refresh_lines P L g sid lines acc)) = active_refreshes (snd acc)"
  by (induction lines arbitrary: acc) (simp_all add: refresh_lines_def)

lemma refresh_lines_append:
  "refresh_lines P L g sid (xs @ ys) acc = refresh_lines P L g sid ys (refresh_lines P L g sid xs acc)"
  by (simp add: refresh_lines_def)

lemma clear_server_data_frame [simp]:
  "now (clear_server_data g sid w) = now w"
  "parsed_lines (clear_server_data g sid w) = parsed_lines w"
  "active_refreshes (clear_server_data g sid w) = active_refreshes w"
  by (auto simp: clear_server_data_def Let_def dest!: store_call_frame
      split: prod.splits bool.splits)

lemma refresh_rejected:
  "active_refreshes w (server_key g (server_id_of cfg)) = Some True \<Longrightarrow>
     refresh_server_data P L g cfg chan lines w = (False, w)"
  by (simp add: refresh_server_data_def refresh_start_def refresh_enter_def Let_def)

lemma refresh_enter_marks:
  "refresh_enter g cfg w = Inr w1 \<Longrightarrow>
     active_refreshes w1 (server_key g (server_id_of cfg)) = Some True"
  by (auto simp: refresh_enter_def set_refresh_def Let_def split: if_splits)

lemma refresh_start_marks:
  "refresh_start g cfg chan lines w = Inr w2 \<Longrightarrow>
     active_refreshes w2 (server_key g (server_id_of cfg)) = Some True"
  by (auto simp: refresh_start_def refresh_enter_def set_refresh_def Let_def split: if_splits)

text \<open>
  C5. A call for a key whose guard entry is \<open>True\<close> returns \<open>False\<close> and leaves the
  whole state as it was: nothing is cleared and nothing is queued. A call that passes the
  guard sets the entry to \<open>True\<close> before anything else (line 245), so a call for the same
  key made from then on is rejected. Where an accepted call reaches its loop, its result is
  the result of the loop from the state \<open>refresh_start\<close> hands over; after every prefix of
  the lines the entry is still \<open>True\<close>, a call for the same key made at that moment is
  rejected and leaves the state as it was, and the loop carried on from there ends with the
  count and the state it has when it is not interrupted. When the accepted call returns,
  the entry is \<open>False\<close>. Calls interleave between the turns of the loop, where the code
  awaits; between the check of line 241 and the assignment of line 245 there is no await.
\<close>

theorem refresh_rejected_while_running:
  "(active_refreshes w (server_key g (server_id_of cfg)) = Some True \<longrightarrow>
      refresh_server_data P L g cfg chan lines w = (False, w)) \<and>
   (\<forall>w1. refresh_enter g cfg w = Inr w1 \<longrightarrow>
      active_refreshes w1 (server_key g (server_id_of cfg)) = Some True \<and>
      refresh_server_data P' L' g cfg chan' lines' w1 = (False, w1)) \<and>
   (\<forall>w2. refresh_start g cfg chan lines w = Inr w2 \<longrightarrow>
      refresh_server_data P L g cfg chan lines w =
        (True, set_refresh (server_key g (server_id_of cfg)) False
                 (snd (refresh_lines P L g (server_id_of cfg) lines (0, w2)))) \<and>
      (\<forall>xs ys c w'.
         lines = xs @ ys \<and> refresh_lines P L g (server_id_of cfg) xs (0, w2) = (c, w') \<longrightarrow>
         active_refreshes w' (server_key g (server_id_of cfg)) = Some True \<and>
         refresh_server_data P' L' g cfg chan' lines' w' = (False, w') \<and>
         refresh_lines P L g (server_id_of cfg) ys
           (c, snd (refresh_server_data P' L' g cfg chan' lines' w')) =
         refresh_lines P L g (server_id_of cfg) lines (0, w2))) \<and>
   (active_refreshes w (server_key g (server_id_of cfg)) \<noteq> Some True \<longrightarrow>
      active_refreshes (snd (refresh_server_data P L g cfg chan lines w))
        (server_key g (server_id_of cfg)) = Some False)"
proof (intro conjI allI impI)
  assume "active_refreshes w (server_key g (server_id_of cfg)) = Some True"
  then show "refresh_server_data P L g cfg chan lines w = (False, w)"
    by (rule refresh_rejected)
next
  fix w1
  assume "refresh_enter g cfg w = Inr w1"
  then show m: "active_refreshes w1 (server_key g (server_id_of cfg)) = Some True"
    by (rule refresh_enter_marks)
  then show "refresh_server_data P' L' g cfg chan' lines' w1 = (False, w1)"
    by (rule refresh_rejected)
next
  fix w2
  assume s: "refresh_start g cfg chan lines w = Inr w2"
  then show "refresh_server_data P L g cfg chan lines w =
        (True, set_refresh (server_key g (server_id_of cfg)) False
                 (snd (refresh_lines P L g (server_id_of cfg) lines (0, w2))))"
    by (simp add: refresh_server_data_def)
  fix xs ys c w'
  assume h: "lines = xs @ ys \<and> refresh_lines P L g (server_id_of cfg) xs (0, w2) = (c, w')"
  have "active_refreshes w' = active_refreshes (snd (0::nat, w2))"
    using refresh_lines_frame(3) [of P L g "server_id_of cfg" xs "(0, w2)"] h by simp
  with refresh_start_marks [OF s]
  show m: "active_refreshes w' (server_key g (server_id_of cfg)) = Some True" by simp
  then show r: "refresh_server_data P' L' g cfg chan' lines' w' = (False, w')"
    by (rule refresh_rejected)
  from h show "refresh_lines P L g (server_id_of cfg) ys
           (c, snd (refresh_server_data P' L' g cfg chan' lines' w')) =
         refresh_lines P L g (server_id_of cfg) lines (0, w2)"
    by (simp add: r refresh_lines_append)
next
  assume "active_refreshes w (server_key g (server_id_of cfg)) \<noteq> Some True"
  then show "active_refreshes (snd (refresh_server_data P L g cfg chan lines w))
        (server_key g (server_id_of cfg)) = Some False"
    by (simp add: refresh_server_data_def refresh_start_def refresh_enter_def set_refresh_def Let_def)
qed

theorem refresh_rejected_while_running_witness:
  "refresh_enter 1 s1 empty_world =
     Inr (set_refresh (server_key 1 (server_id_of s1)) True empty_world) \<and>
   active_refreshes (set_refresh (server_key 1 (server_id_of s1)) True empty_world)
     (server_key 1 (server_id_of s1)) = Some True \<and>
   refresh_server_data RejectConflicts sample_lib 1 s1 None [alice_line]
     (set_refresh (server_key 1 (server_id_of s1)) True empty_world) =
     (False, set_refresh (server_key 1 (server_id_of s1)) True empty_world) \<and>
   refresh_start 1 s1 None [alice_line] empty_world =
     Inr (clear_server_data 1 (server_id_of s1)
            (set_refresh (server_key 1 (server_id_of s1)) True empty_world)) \<and>
   refresh_lines RejectConflicts sample_lib 1 (server_id_of s1) []
     (0, clear_server_data 1 (server_id_of s1)
            (set_refresh (server_key 1 (server_id_of s1)) True empty_world)) =
     (0, clear_server_data 1 (server_id_of s1)
            (set_refresh (server_key 1 (server_id_of s1)) True empty_world)) \<and>
   refresh_server_data RejectConflicts sample_lib 1 s1 None [alice_line]
     (clear_server_data 1 (server_id_of s1)
        (set_refresh (server_key 1 (server_id_of s1)) True empty_world)) =
   (False, clear_server_data 1 (server_id_of s1)
        (set_refresh (server_key 1 (server_id_of s1)) True empty_world)) \<and>
   active_refreshes empty_world (server_key 1 (server_id_of s1)) \<noteq> Some True \<and>
   active_refreshes
     (snd (refresh_server_data RejectConflicts sample_lib 1 s1 None [alice_line] empty_world))
     (server_key 1 (server_id_of s1)) = Some False"
proof -
  define w1 where "w1 = set_refresh (server_key 1 (server_id_of s1)) True empty_world"
  define w2 where "w2 = clear_server_data 1 (server_id_of s1) w1"
  have h0: "active_refreshes empty_world (server_key 1 (server_id_of s1)) \<noteq> Some True"
    by (simp add: empty_world_def)
  have e1: "refresh_enter 1 s1 empty_world = Inr w1"
    by (simp add: refresh_enter_def Let_def w1_def empty_world_def)
  have h1: "refresh_start 1 s1 None [alice_line] empty_world = Inr w2"
    by (simp add: refresh_start_def refresh_enter_def Let_def w1_def w2_def empty_world_def)
  have h2: "[alice_line] = [] @ [alice_line] \<and>
      refresh_lines RejectConflicts sample_lib 1 (server_id_of s1) [] (0, w2) = (0, w2)"
    by (simp add: refresh_lines_def)
  note t = refresh_rejected_while_running [where w = empty_world and g = 1 and cfg = s1
      and chan = None and lines = "[alice_line]" and P = RejectConflicts and L = sample_lib
      and P' = RejectConflicts and L' = sample_lib and chan' = None and lines' = "[alice_line]"]
  from t e1 have a: "active_refreshes w1 (server_key 1 (server_id_of s1)) = Some True"
    by blast
  note u = refresh_rejected_while_running [where w = w1 and g = 1 and cfg = s1
      and chan = None and lines = "[alice_line]" and P = RejectConflicts and L = sample_lib]
  from u a have b: "refresh_server_data RejectConflicts sample_lib 1 s1 None [alice_line] w1 = (False, w1)"
    by blast
  from t h1 h2
  have c: "refresh_server_data RejectConflicts sample_lib 1 s1 None [alice_line] w2 = (False, w2)"
    by blast
  from t h0 have d: "active_refreshes
     (snd (refresh_server_data RejectConflicts sample_lib 1 s1 None [alice_line] empty_world))
     (server_key 1 (server_id_of s1)) = Some False"
    by blast
  from e1 a b h1 h2 c h0 d show ?thesis
    unfolding w2_def w1_def by blast
qed

lemma clear_server_data_ok:
  "True \<notin> set (take 2 (faults w)) \<Longrightarrow>
     pvp_data (clear_server_data g sid w) = delete_many (server_filter g sid) (pvp_data w) \<and>
     kill_events (clear_server_data g sid w) = delete_many (server_filter g sid) (kill_events w) \<and>
     faults (clear_server_data g sid w) = drop 2 (faults w)"
  by (cases "faults w"; cases "tl (faults w)")
     (auto simp: clear_server_data_def store_call_def Let_def)

lemma clear_server_data_first_fails:
  "faults w = True # fs \<Longrightarrow> clear_server_data g sid w = w\<lparr>faults := fs\<rparr>"
  by (simp add: clear_server_data_def store_call_def)

lemma clear_server_data_second_fails:
  "faults w = False # True # fs \<Longrightarrow>
     clear_server_data g sid w =
       w\<lparr>pvp_data := delete_many (server_filter g sid) (pvp_data w), faults := fs\<rparr>"
  by (simp add: clear_server_data_def store_call_def Let_def)

lemma filter_delete_many [simp]: "filter (matches flt) (delete_many flt c) = []"
  by (induction c) (auto simp: delete_many_def)

text \<open>
  C7, as the code has it. A refresh that is not rejected, whose first message is sent and
  whose fetch returns no line returns \<open>False\<close> and leaves the entry of the server at
  \<open>False\<close>, so that a next refresh is not rejected. The clear comes before the test for
  lines: when both deletes succeed, no record and no log entry of the server is left; when
  the first delete raises, \<open>clear_server_data\<close> catches it and the records and the log
  are as before; when only the second raises, the records are gone and the log is as
  before.
\<close>

theorem refresh_without_data:
  assumes "active_refreshes w (server_key g (server_id_of cfg)) \<noteq> Some True"
    and "chan \<noteq> Some (Channel True)"
  shows "(let r = refresh_server_data P L g cfg chan [] w;
             key = server_key g (server_id_of cfg);
             flt = server_filter g (server_id_of cfg)
         in fst r = False \<and>
            active_refreshes (snd r) key = Some False \<and>
            (lines' \<noteq> [] \<longrightarrow> fst (refresh_server_data P' L' g cfg None lines' (snd r)) = True) \<and>
            (True \<notin> set (take 2 (faults w)) \<longrightarrow>
               filter (matches flt) (pvp_data (snd r)) = [] \<and>
               filter (matches flt) (kill_events (snd r)) = []) \<and>
            (\<forall>fs. faults w = True # fs \<longrightarrow>
               pvp_data (snd r) = pvp_data w \<and> kill_events (snd r) = kill_events w) \<and>
            (\<forall>fs. faults w = False # True # fs \<longrightarrow>
               filter (matches flt) (pvp_data (snd r)) = [] \<and>
               kill_events (snd r) = kill_events w))"
proof -
  define key where "key = server_key g (server_id_of cfg)"
  define w2 where "w2 = clear_server_data g (server_id_of cfg) (set_refresh key True w)"
  have r: "refresh_server_data P L g cfg chan [] w = (False, set_refresh key False w2)"
    using assms by (simp add: refresh_server_data_def refresh_start_def refresh_enter_def Let_def key_def w2_def)
  have released: "active_refreshes (set_refresh key False w2) key = Some False"
    by (simp add: set_refresh_def)
  then have again: "fst (refresh_server_data P' L' g cfg None lines' (set_refresh key False w2)) = True"
    if "lines' \<noteq> []"
    using that by (simp add: refresh_server_data_def refresh_start_def refresh_enter_def Let_def key_def)
  have f: "faults (set_refresh key True w) = faults w"
    "pvp_data (set_refresh key True w) = pvp_data w"
    "kill_events (set_refresh key True w) = kill_events w"
    by (simp_all add: set_refresh_def)
  have cleared: "filter (matches (server_filter g (server_id_of cfg))) (pvp_data (set_refresh key False w2)) = [] \<and>
      filter (matches (server_filter g (server_id_of cfg))) (kill_events (set_refresh key False w2)) = []"
    if "True \<notin> set (take 2 (faults w))"
    using clear_server_data_ok [of "set_refresh key True w" g "server_id_of cfg"] that f
    by (simp add: w2_def set_refresh_def)
  have kept: "pvp_data (set_refresh key False w2) = pvp_data w \<and>
      kill_events (set_refresh key False w2) = kill_events w"
    if "faults w = True # fs" for fs
    using clear_server_data_first_fails [of "set_refresh key True w" fs g "server_id_of cfg"] that f
    by (simp add: w2_def set_refresh_def)
  have kept2: "filter (matches (server_filter g (server_id_of cfg))) (pvp_data (set_refresh key False w2)) = [] \<and>
      kill_events (set_refresh key False w2) = kill_events w"
    if "faults w = False # True # fs" for fs
    using clear_server_data_second_fails [of "set_refresh key True w" fs g "server_id_of cfg"] that f
    by (simp add: w2_def set_refresh_def)
  from r released again cleared kept kept2 show ?thesis
    unfolding Let_def key_def by auto
qed

lemmas refresh_eval_defs =
  refresh_server_data_def refresh_start_def refresh_enter_def clear_server_data_def refresh_lines_def refresh_line_def set_refresh_def
  server_id_of_def s1_def delete_many_def server_filter_def

theorem refresh_without_data_witness:
  "active_refreshes (empty_world\<lparr>pvp_data := [zed_record]\<rparr>) (server_key 1 (server_id_of s1)) \<noteq> Some True \<and>
   True \<notin> set (take 2 (faults (empty_world\<lparr>pvp_data := [zed_record]\<rparr>))) \<and>
   fst (refresh_server_data RejectConflicts sample_lib 1 s1 None []
          (empty_world\<lparr>pvp_data := [zed_record]\<rparr>)) = False \<and>
   filter (matches (server_filter 1 (server_id_of s1)))
     (pvp_data (snd (refresh_server_data RejectConflicts sample_lib 1 s1 None []
          (empty_world\<lparr>pvp_data := [zed_record]\<rparr>)))) = []"
proof -
  have h1: "active_refreshes (empty_world\<lparr>pvp_data := [zed_record]\<rparr>) (server_key 1 (server_id_of s1)) \<noteq> Some True"
    by (simp add: empty_world_def)
  have h2: "(None :: channel option) \<noteq> Some (Channel True)" by simp
  have h3: "True \<notin> set (take 2 (faults (empty_world\<lparr>pvp_data := [zed_record]\<rparr>)))"
    by (simp add: empty_world_def)
  from refresh_without_data [OF h1 h2, of RejectConflicts sample_lib] h1 h3
  show ?thesis by (simp add: Let_def)
qed

text \<open>
  C7 as it is written fails when the store is down during the clear: the first delete
  raises, the run still ends with \<open>False\<close>, and the record of the server is still there.
\<close>

theorem refresh_without_data_counterexample:
  "fst (refresh_server_data RejectConflicts sample_lib 1 s1 None []
          (empty_world\<lparr>pvp_data := [zed_record], faults := [True]\<rparr>)) = False \<and>
   pvp_data (snd (refresh_server_data RejectConflicts sample_lib 1 s1 None []
          (empty_world\<lparr>pvp_data := [zed_record], faults := [True]\<rparr>))) = [zed_record] \<and>
   matches (server_filter 1 ''s1'') zed_record"
  by (simp add: refresh_eval_defs empty_world_def store_call_def Let_def matches_def zed_record_def)

lemma parsed_events_Cons:
  "parsed_events L (line # lines) =
     (if strip line = [] then []
      else (case parse_csv_line L line of None \<Rightarrow> [] | Some kd \<Rightarrow> [kd])) @ parsed_events L lines"
  by (simp add: parsed_events_def split: option.splits)

lemma refresh_line_ok:
  assumes "True \<notin> set (faults w)"
  shows "kill_events (snd (refresh_line P L g sid line (n, w))) =
           kill_events w @ map (kill_event g sid (now w)) (parsed_events L [line]) \<and>
         True \<notin> set (faults (snd (refresh_line P L g sid line (n, w))))"
  using assms
  by (auto simp: refresh_line_def Let_def parsed_events_Cons parsed_events_def
      add_kill_event_ok update_pvp_stats_ok split: option.splits)

lemma refresh_lines_ok:
  "True \<notin> set (faults (snd acc)) \<Longrightarrow>
     kill_events (snd (refresh_lines P L g sid lines acc)) =
       kill_events (snd acc) @ map (kill_event g sid (now (snd acc))) (parsed_events L lines) \<and>
     True \<notin> set (faults (snd (refresh_lines P L g sid lines acc)))"
proof (induction lines arbitrary: acc)
  case Nil
  then show ?case by (simp add: refresh_lines_def parsed_events_def)
next
  case (Cons line lines)
  obtain n w where acc: "acc = (n, w)" by (cases acc)
  let ?a = "refresh_line P L g sid line acc"
  from Cons.prems acc have ok: "True \<notin> set (faults w)" by simp
  from refresh_line_ok [OF ok, of P L g sid line n]
  have 1: "kill_events (snd ?a) =
      kill_events w @ map (kill_event g sid (now w)) (parsed_events L [line])"
    and 2: "True \<notin> set (faults (snd ?a))"
    by (simp_all add: acc)
  have 3: "now (snd ?a) = now w" by (simp add: acc)
  have 4: "parsed_events L (line # lines) = parsed_events L [line] @ parsed_events L lines"
    by (simp add: parsed_events_def split: option.splits)
  from Cons.IH [OF 2] 1 3 4 show ?case
    by (simp add: refresh_lines_def acc)
qed

lemma refresh_lines_count:
  "fst (refresh_lines P L g sid lines acc) = fst acc + length (parsed_events L lines)"
proof (induction lines arbitrary: acc)
  case Nil
  then show ?case by (simp add: refresh_lines_def parsed_events_def)
next
  case (Cons line lines)
  have "fst (refresh_line P L g sid line acc) = fst acc + length (parsed_events L [line])"
    by (cases acc)
       (auto simp: refresh_line_def Let_def parsed_events_def split: option.splits)
  with Cons.IH [of "refresh_line P L g sid line acc"] show ?case
    by (simp add: refresh_lines_def parsed_events_Cons [of L line lines] parsed_events_Cons [of L line "[]"]
        parsed_events_def [of L "[]"])
qed

lemma matches_kill_event [simp]: "matches (server_filter g sid) (kill_event g sid t kd)"
  by (simp add: matches_def server_filter_def kill_event_def dict_update_def kill_data_items_def)

lemma delete_many_idem [simp]: "delete_many flt (delete_many flt c) = delete_many flt c"
  by (simp add: delete_many_def)

lemma filter_not_delete_many [simp]:
  "filter (\<lambda>d. \<not> matches flt d) (delete_many flt c) = filter (\<lambda>d. \<not> matches flt d) c"
  by (simp add: delete_many_def)

lemma clear_server_data_purge:
  "True \<notin> set (take 2 (faults w)) \<Longrightarrow>
     clear_server_data g sid (purge g sid w) = clear_server_data g sid w"
  by (cases "faults w"; cases "tl (faults w)")
     (auto simp: clear_server_data_def store_call_def purge_def Let_def)

lemma set_refresh_purge: "set_refresh key b (purge g sid w) = purge g sid (set_refresh key b w)"
  by (simp add: set_refresh_def purge_def)

lemma matches_key_server:
  "matches (stats_key g s p) d \<Longrightarrow> matches (server_filter g s) d"
  by (simp add: matches_def stats_key_def server_filter_def)

lemma filter_update_first:
  assumes "\<And>d. p d \<Longrightarrow> \<not> Q d" and "\<And>d. Q (F d) = Q d"
  shows "filter Q (update_first p F c) = filter Q c"
  by (induction c) (auto simp: assms)

lemma upd_keeps_server:
  "matches (server_filter g' s') (dict_update d (AList.update ''last_updated'' v (inc f))) =
     matches (server_filter g' s') d"
  by (rule matches_dict_update) (auto simp: server_filter_def inc_def)

lemma new_record_matches_server:
  "matches (server_filter g s)
     (dict_update (dict_update (stats_key g s p) (default_stats g s p t))
        (AList.update ''last_updated'' v (inc f)))"
  by (simp add: upd_keeps_server)
     (simp add: matches_def server_filter_def stats_key_def default_stats_def dict_update_def)

lemma update_pvp_stats_inc_others:
  "filter (\<lambda>d. \<not> matches (server_filter g s) d)
     (pvp_data (snd (update_pvp_stats P g s p (inc f) w))) =
   filter (\<lambda>d. \<not> matches (server_filter g s) d) (pvp_data w)"
proof -
  define su where "su = AList.update ''last_updated'' (VTime (now w)) (inc f)"
  define nd where "nd = dict_update (dict_update (stats_key g s p) (default_stats g s p (now w))) su"
  from update_pvp_stats_inc_cases [of P g s p f w]
  consider "pvp_data (snd (update_pvp_stats P g s p (inc f) w)) = pvp_data w"
    | "pvp_data (snd (update_pvp_stats P g s p (inc f) w)) =
         update_first (matches (stats_key g s p)) (\<lambda>d. dict_update d su) (pvp_data w)"
    | "pvp_data (snd (update_pvp_stats P g s p (inc f) w)) = pvp_data w @ [nd]"
    by (auto simp: Let_def su_def nd_def split: if_splits)
  then show ?thesis
  proof cases
    case 1
    then show ?thesis by simp
  next
    case 2
    show ?thesis
      unfolding 2 su_def
      by (rule filter_update_first) (simp_all add: matches_key_server upd_keeps_server)
  next
    case 3
    have "matches (server_filter g s) nd"
      unfolding nd_def su_def by (rule new_record_matches_server)
    then show ?thesis unfolding 3 by simp
  qed
qed

lemma add_kill_event_cases:
  "kill_events (snd (add_kill_event g s kd w)) = kill_events w \<or>
   kill_events (snd (add_kill_event g s kd w)) = kill_events w @ [kill_event g s (now w) kd]"
  by (auto simp: add_kill_event_def store_call_def split: list.splits bool.splits)

lemma refresh_line_others:
  "filter (\<lambda>d. \<not> matches (server_filter g s) d) (pvp_data (snd (refresh_line P L g s line acc))) =
     filter (\<lambda>d. \<not> matches (server_filter g s) d) (pvp_data (snd acc)) \<and>
   filter (\<lambda>d. \<not> matches (server_filter g s) d) (kill_events (snd (refresh_line P L g s line acc))) =
     filter (\<lambda>d. \<not> matches (server_filter g s) d) (kill_events (snd acc)) \<and>
   (\<exists>new. kill_events (snd (refresh_line P L g s line acc)) = kill_events (snd acc) @ new)"
proof (cases "strip line = [] \<or> parse_csv_line L line = None")
  case True
  then show ?thesis by (cases acc) (auto simp: refresh_line_def)
next
  case False
  obtain n w where acc: "acc = (n, w)" by (cases acc)
  from False obtain kd where kd: "parse_csv_line L line = Some kd" and nb: "strip line \<noteq> []" by auto
  define w1 where "w1 = snd (add_kill_event g s kd w)"
  define w2 where
    "w2 = (if \<not> is_suicide kd then snd (update_pvp_stats P g s (killer kd) (inc ''kills'') w1) else w1)"
  define f where "f = (if \<not> is_suicide kd then ''deaths'' else ''suicides'')"
  have e: "snd (refresh_line P L g s line acc) = snd (update_pvp_stats P g s (victim kd) (inc f) w2)"
    using kd nb by (simp add: acc refresh_line_def Let_def w1_def w2_def f_def)
  have p1: "pvp_data w1 = pvp_data w" by (simp add: w1_def)
  have p2: "filter (\<lambda>d. \<not> matches (server_filter g s) d) (pvp_data w2) =
      filter (\<lambda>d. \<not> matches (server_filter g s) d) (pvp_data w)"
    using update_pvp_stats_inc_others [of g s P "killer kd" "''kills''" w1] p1
    by (simp add: w2_def)
  have k2: "kill_events w2 = kill_events w1" by (simp add: w2_def)
  have k3: "kill_events (snd (update_pvp_stats P g s (victim kd) (inc f) w2)) = kill_events w1"
    by (simp add: k2)
  from add_kill_event_cases [of g s kd w]
  have k1: "filter (\<lambda>d. \<not> matches (server_filter g s) d) (kill_events w1) =
      filter (\<lambda>d. \<not> matches (server_filter g s) d) (kill_events w) \<and>
      (\<exists>new. kill_events w1 = kill_events w @ new)"
    by (auto simp: w1_def)
  from e p2 k1 k3 update_pvp_stats_inc_others [of g s P "victim kd" f w2]
  show ?thesis by (simp add: acc)
qed

lemma refresh_lines_others:
  "filter (\<lambda>d. \<not> matches (server_filter g s) d) (pvp_data (snd (refresh_lines P L g s lines acc))) =
     filter (\<lambda>d. \<not> matches (server_filter g s) d) (pvp_data (snd acc)) \<and>
   filter (\<lambda>d. \<not> matches (server_filter g s) d) (kill_events (snd (refresh_lines P L g s lines acc))) =
     filter (\<lambda>d. \<not> matches (server_filter g s) d) (kill_events (snd acc)) \<and>
   (\<exists>new. kill_events (snd (refresh_lines P L g s lines acc)) = kill_events (snd acc) @ new)"
proof (induction lines arbitrary: acc)
  case Nil
  then show ?case by (simp add: refresh_lines_def)
next
  case (Cons line lines)
  from Cons.IH [of "refresh_line P L g s line acc"] refresh_line_others [of g s P L line acc]
  show ?case by (auto simp: refresh_lines_def)
qed

lemma clear_server_data_others:
  "filter (\<lambda>d. \<not> matches (server_filter g s) d) (pvp_data (clear_server_data g s w)) =
     filter (\<lambda>d. \<not> matches (server_filter g s) d) (pvp_data w) \<and>
   filter (\<lambda>d. \<not> matches (server_filter g s) d) (kill_events (clear_server_data g s w)) =
     filter (\<lambda>d. \<not> matches (server_filter g s) d) (kill_events w)"
  by (cases "faults w"; cases "tl (faults w)")
     (auto simp: clear_server_data_def store_call_def Let_def split: bool.splits)

lemma list_all_filter_update_first:
  assumes "\<And>d. Q (F d) = Q d" and "\<And>d. Z d \<Longrightarrow> Z (F d)"
  shows "list_all Z (filter Q c) \<Longrightarrow> list_all Z (filter Q (update_first p F c))"
  by (induction c) (auto simp: assms)

lemma upd_keeps_zeroed:
  "zeroed d \<Longrightarrow> zeroed (dict_update d (AList.update ''last_updated'' v (inc f)))"
  by (simp add: zeroed_def list_all_iff upd_keeps_counters)

lemma new_record_zeroed:
  "zeroed (dict_update (dict_update (stats_key g s p) (default_stats g s p t))
             (AList.update ''last_updated'' v (inc f)))"
  by (simp add: zeroed_def list_all_iff new_record_counters)

lemma update_pvp_stats_inc_zeroed:
  assumes "list_all zeroed (filter (matches (server_filter g s)) (pvp_data w))"
  shows "list_all zeroed
           (filter (matches (server_filter g s)) (pvp_data (snd (update_pvp_stats P g s p (inc f) w))))"
proof -
  define su where "su = AList.update ''last_updated'' (VTime (now w)) (inc f)"
  define nd where "nd = dict_update (dict_update (stats_key g s p) (default_stats g s p (now w))) su"
  from update_pvp_stats_inc_cases [of P g s p f w]
  consider "pvp_data (snd (update_pvp_stats P g s p (inc f) w)) = pvp_data w"
    | "pvp_data (snd (update_pvp_stats P g s p (inc f) w)) =
         update_first (matches (stats_key g s p)) (\<lambda>d. dict_update d su) (pvp_data w)"
    | "pvp_data (snd (update_pvp_stats P g s p (inc f) w)) = pvp_data w @ [nd]"
    by (auto simp: Let_def su_def nd_def split: if_splits)
  then show ?thesis
  proof cases
    case 1
    with assms show ?thesis by simp
  next
    case 2
    show ?thesis
      unfolding 2 su_def
      by (rule list_all_filter_update_first [OF _ _ assms])
         (simp_all add: upd_keeps_server upd_keeps_zeroed)
  next
    case 3
    have "zeroed nd" unfolding nd_def su_def by (rule new_record_zeroed)
    with assms show ?thesis unfolding 3 by simp
  qed
qed

lemma refresh_line_zeroed:
  assumes "list_all zeroed (filter (matches (server_filter g s)) (pvp_data (snd acc)))"
  shows "list_all zeroed
           (filter (matches (server_filter g s)) (pvp_data (snd (refresh_line P L g s line acc))))"
proof (cases "strip line = [] \<or> parse_csv_line L line = None")
  case True
  with assms show ?thesis by (cases acc) (auto simp: refresh_line_def)
next
  case False
  obtain n w where acc: "acc = (n, w)" by (cases acc)
  from False obtain kd where kd: "parse_csv_line L line = Some kd" and nb: "strip line \<noteq> []" by auto
  define w1 where "w1 = snd (add_kill_event g s kd w)"
  define w2 where
    "w2 = (if \<not> is_suicide kd then snd (update_pvp_stats P g s (killer kd) (inc ''kills'') w1) else w1)"
  define f where "f = (if \<not> is_suicide kd then ''deaths'' else ''suicides'')"
  have e: "snd (refresh_line P L g s line acc) = snd (update_pvp_stats P g s (victim kd) (inc f) w2)"
    using kd nb by (simp add: acc refresh_line_def Let_def w1_def w2_def f_def)
  from assms have a1: "list_all zeroed (filter (matches (server_filter g s)) (pvp_data w1))"
    by (simp add: w1_def acc)
  then have a2: "list_all zeroed (filter (matches (server_filter g s)) (pvp_data w2))"
    using update_pvp_stats_inc_zeroed [OF a1, of P "killer kd" "''kills''"] by (simp add: w2_def)
  from update_pvp_stats_inc_zeroed [OF a2, of P "victim kd" f] e show ?thesis by simp
qed

lemma refresh_lines_zeroed:
  "list_all zeroed (filter (matches (server_filter g s)) (pvp_data (snd acc))) \<Longrightarrow>
   list_all zeroed
     (filter (matches (server_filter g s)) (pvp_data (snd (refresh_lines P L g s lines acc))))"
proof (induction lines arbitrary: acc)
  case Nil
  then show ?case by (simp add: refresh_lines_def)
next
  case (Cons line lines)
  from Cons.IH [OF refresh_line_zeroed [OF Cons.prems, of P L line]] show ?case
    by (simp add: refresh_lines_def)
qed

lemma refresh_line_rejected:
  "pvp_data (snd (refresh_line RejectConflicts L g s line acc)) = pvp_data (snd acc)"
  by (cases acc)
     (auto simp: refresh_line_def Let_def update_pvp_stats_inc_rejected split: option.splits)

lemma refresh_lines_rejected:
  "pvp_data (snd (refresh_lines RejectConflicts L g s lines acc)) = pvp_data (snd acc)"
proof (induction lines arbitrary: acc)
  case Nil
  then show ?case by (simp add: refresh_lines_def)
next
  case (Cons line lines)
  from Cons.IH [of "refresh_line RejectConflicts L g s line acc"] show ?case
    by (simp add: refresh_lines_def refresh_line_rejected)
qed

text \<open>
  C6 against the code. A refresh that reaches its loop returns \<open>True\<close> and releases the
  guard whatever the store does, and touches no record and no log entry of another server.
  When both bulk deletes succeed, the loop starts without a record or a log entry of the
  server, and the outcome is that of the same run on a store that held nothing for the
  server. The rebuild does not give the records C6 names: every record the server has
  after the run has kills, deaths, suicides and kdr at the defaults of zero, and where the
  store refuses the update of database.py 179-183 the server has no record at all,
  where C6 asks for a record with kills = 1 or deaths = 1 per player. When no store call
  raises, the log of the server is one entry per line that is not blank and parses, in
  the order of the lines. When the first delete raises, \<open>clear_server_data\<close> catches it
  and the run goes on over the state as it was: every record from before the run keeps its
  counters, and the old log entries stay at the head of the log. When only the second
  delete raises, the records are deleted and the old log entries stay.
\<close>

theorem refresh_rebuilds:
  assumes "active_refreshes w (server_key g (server_id_of cfg)) \<noteq> Some True"
    and "chan \<noteq> Some (Channel True)"
    and "lines \<noteq> []"
  shows "(let r = refresh_server_data P L g cfg chan lines w;
             sid = server_id_of cfg;
             key = server_key g sid;
             flt = server_filter g sid
         in fst r = True \<and>
            active_refreshes (snd r) key = Some False \<and>
            filter (\<lambda>d. \<not> matches flt d) (pvp_data (snd r)) =
              filter (\<lambda>d. \<not> matches flt d) (pvp_data w) \<and>
            filter (\<lambda>d. \<not> matches flt d) (kill_events (snd r)) =
              filter (\<lambda>d. \<not> matches flt d) (kill_events w) \<and>
            (True \<notin> set (take 2 (faults w)) \<longrightarrow>
               (\<exists>w2. refresh_start g cfg chan lines w = Inr w2 \<and>
                     filter (matches flt) (pvp_data w2) = [] \<and>
                     filter (matches flt) (kill_events w2) = [] \<and>
                     snd r = set_refresh key False (snd (refresh_lines P L g sid lines (0, w2)))) \<and>
               r = refresh_server_data P L g cfg chan lines (purge g sid w) \<and>
               list_all zeroed (filter (matches flt) (pvp_data (snd r))) \<and>
               (P = RejectConflicts \<longrightarrow> filter (matches flt) (pvp_data (snd r)) = [])) \<and>
            (True \<notin> set (faults w) \<longrightarrow>
               filter (matches flt) (kill_events (snd r)) =
                 map (kill_event g sid (now w)) (parsed_events L lines)) \<and>
            (\<forall>fs. faults w = True # fs \<longrightarrow>
               snd r = set_refresh key False
                         (snd (refresh_lines P L g sid lines
                                 (0, set_refresh key True (w\<lparr>faults := fs\<rparr>)))) \<and>
               (\<forall>g' s' p'. record_step (find_one (stats_key g' s' p') (pvp_data w))
                               (find_one (stats_key g' s' p') (pvp_data (snd r)))) \<and>
               (P = RejectConflicts \<longrightarrow> pvp_data (snd r) = pvp_data w) \<and>
               (\<exists>new. kill_events (snd r) = kill_events w @ new)) \<and>
            (\<forall>fs. faults w = False # True # fs \<longrightarrow>
               snd r = set_refresh key False
                         (snd (refresh_lines P L g sid lines
                                 (0, set_refresh key True
                                       (w\<lparr>pvp_data := delete_many flt (pvp_data w),
                                          faults := fs\<rparr>)))) \<and>
               (\<exists>new. kill_events (snd r) = kill_events w @ new)))"
proof -
  define sid where "sid = server_id_of cfg"
  define key where "key = server_key g sid"
  define flt where "flt = server_filter g sid"
  define w1 where "w1 = set_refresh key True w"
  define w2 where "w2 = clear_server_data g sid w1"
  define w3 where "w3 = snd (refresh_lines P L g sid lines (0, w2))"
  define r where "r = refresh_server_data P L g cfg chan lines w"
  have st: "refresh_start g cfg chan lines w = Inr w2"
    using assms
    by (simp add: refresh_start_def refresh_enter_def Let_def key_def sid_def w1_def w2_def)
  then have r: "r = (True, set_refresh key False w3)"
    by (simp add: r_def refresh_server_data_def key_def sid_def w3_def)
  have f1: "faults w1 = faults w" "pvp_data w1 = pvp_data w" "kill_events w1 = kill_events w"
    "now w1 = now w"
    by (simp_all add: w1_def set_refresh_def)
  have A: "fst r = True" by (simp add: r)
  have B: "active_refreshes (snd r) key = Some False" by (simp add: r set_refresh_def)
  have o2: "filter (\<lambda>d. \<not> matches flt d) (pvp_data w2) = filter (\<lambda>d. \<not> matches flt d) (pvp_data w)"
    "filter (\<lambda>d. \<not> matches flt d) (kill_events w2) = filter (\<lambda>d. \<not> matches flt d) (kill_events w)"
    using clear_server_data_others [of g sid w1] by (simp_all add: w2_def flt_def f1)
  have o3: "filter (\<lambda>d. \<not> matches flt d) (pvp_data w3) = filter (\<lambda>d. \<not> matches flt d) (pvp_data w2)"
    "filter (\<lambda>d. \<not> matches flt d) (kill_events w3) = filter (\<lambda>d. \<not> matches flt d) (kill_events w2)"
    using refresh_lines_others [of g sid P L lines "(0, w2)"] by (simp_all add: w3_def flt_def)
  have C: "filter (\<lambda>d. \<not> matches flt d) (pvp_data (snd r)) = filter (\<lambda>d. \<not> matches flt d) (pvp_data w)"
    by (simp add: r set_refresh_def o2 o3)
  have D: "filter (\<lambda>d. \<not> matches flt d) (kill_events (snd r)) =
      filter (\<lambda>d. \<not> matches flt d) (kill_events w)"
    by (simp add: r set_refresh_def o2 o3)
  have E: "(\<exists>w2. refresh_start g cfg chan lines w = Inr w2 \<and>
                     filter (matches flt) (pvp_data w2) = [] \<and>
                     filter (matches flt) (kill_events w2) = [] \<and>
                     snd r = set_refresh key False (snd (refresh_lines P L g sid lines (0, w2)))) \<and>
               r = refresh_server_data P L g cfg chan lines (purge g sid w) \<and>
               list_all zeroed (filter (matches flt) (pvp_data (snd r))) \<and>
               (P = RejectConflicts \<longrightarrow> filter (matches flt) (pvp_data (snd r)) = [])"
    if ok: "True \<notin> set (take 2 (faults w))"
  proof -
    from ok have t2: "True \<notin> set (take 2 (faults w1))"
      using f1 by simp
    from clear_server_data_ok [OF t2, of g sid]
    have c2: "kill_events w2 = delete_many (server_filter g sid) (kill_events w)"
      and p2: "pvp_data w2 = delete_many (server_filter g sid) (pvp_data w)"
      by (simp_all add: w2_def f1)
    have e1: "\<exists>w2. refresh_start g cfg chan lines w = Inr w2 \<and>
                     filter (matches flt) (pvp_data w2) = [] \<and>
                     filter (matches flt) (kill_events w2) = [] \<and>
                     snd r = set_refresh key False (snd (refresh_lines P L g sid lines (0, w2)))"
      using st by (simp add: c2 p2 flt_def r w3_def)
    have "active_refreshes (purge g sid w) = active_refreshes w" by (simp add: purge_def)
    moreover have "clear_server_data g sid (set_refresh key True (purge g sid w)) = w2"
      using clear_server_data_purge [OF t2, of g sid]
      by (simp add: set_refresh_purge w2_def w1_def)
    ultimately have "refresh_start g cfg chan lines (purge g sid w) = Inr w2"
      using assms
      by (simp add: refresh_start_def refresh_enter_def Let_def key_def sid_def)
    then have e2: "r = refresh_server_data P L g cfg chan lines (purge g sid w)"
      by (simp add: r refresh_server_data_def key_def sid_def w3_def)
    have z2: "list_all zeroed (filter (matches (server_filter g sid)) (pvp_data (snd (0::nat, w2))))"
      by (simp add: p2)
    from refresh_lines_zeroed [OF z2, of P L lines]
    have e3: "list_all zeroed (filter (matches flt) (pvp_data (snd r)))"
      by (simp add: r set_refresh_def w3_def flt_def)
    have e4: "filter (matches flt) (pvp_data (snd r)) = []" if "P = RejectConflicts"
      using refresh_lines_rejected [of L g sid lines "(0, w2)"] that
      by (simp add: r set_refresh_def w3_def flt_def p2)
    from e1 e2 e3 e4 show ?thesis by blast
  qed
  have E': "filter (matches flt) (kill_events (snd r)) =
                 map (kill_event g sid (now w)) (parsed_events L lines)"
    if ok: "True \<notin> set (faults w)"
  proof -
    from ok have t2: "True \<notin> set (take 2 (faults w1))"
      using f1 by (auto dest: in_set_takeD)
    from clear_server_data_ok [OF t2, of g sid]
    have c2: "kill_events w2 = delete_many (server_filter g sid) (kill_events w)"
      and fl2: "faults w2 = drop 2 (faults w)"
      by (simp_all add: w2_def f1)
    from fl2 ok have ok2: "True \<notin> set (faults (snd (0::nat, w2)))"
      by (auto dest: in_set_dropD)
    have n2: "now w2 = now w" by (simp add: w2_def f1)
    from refresh_lines_ok [OF ok2, of P L g sid lines]
    have k3: "kill_events w3 =
        delete_many (server_filter g sid) (kill_events w) @
        map (kill_event g sid (now w)) (parsed_events L lines)"
      by (simp add: w3_def c2 n2)
    show ?thesis
      by (simp add: r set_refresh_def k3 flt_def filter_map comp_def)
  qed
  have F: "snd r = set_refresh key False
                         (snd (refresh_lines P L g sid lines
                                 (0, set_refresh key True (w\<lparr>faults := fs\<rparr>)))) \<and>
               (\<forall>g' s' p'. record_step (find_one (stats_key g' s' p') (pvp_data w))
                               (find_one (stats_key g' s' p') (pvp_data (snd r)))) \<and>
               (P = RejectConflicts \<longrightarrow> pvp_data (snd r) = pvp_data w) \<and>
               (\<exists>new. kill_events (snd r) = kill_events w @ new)"
    if fl: "faults w = True # fs" for fs
  proof -
    from fl have "faults w1 = True # fs" by (simp add: f1)
    from clear_server_data_first_fails [OF this, of g sid]
    have w2e: "w2 = w1\<lparr>faults := fs\<rparr>" by (simp add: w2_def)
    then have w2e': "w2 = set_refresh key True (w\<lparr>faults := fs\<rparr>)"
      by (simp add: w1_def set_refresh_def)
    have d2: "pvp_data w2 = pvp_data w" "kill_events w2 = kill_events w"
      by (simp_all add: w2e f1)
    have a: "snd r = set_refresh key False
                         (snd (refresh_lines P L g sid lines
                                 (0, set_refresh key True (w\<lparr>faults := fs\<rparr>))))"
      by (simp add: r w3_def w2e')
    have b: "record_step (find_one (stats_key g' s' p') (pvp_data w))
                               (find_one (stats_key g' s' p') (pvp_data (snd r)))" for g' s' p'
      using refresh_lines_record_step [of g' s' p' "(0, w2)" P L g sid lines]
      by (simp add: r set_refresh_def w3_def d2)
    have c: "\<exists>new. kill_events (snd r) = kill_events w @ new"
      using refresh_lines_others [of g sid P L lines "(0, w2)"]
      by (simp add: r set_refresh_def w3_def d2)
    have d: "pvp_data (snd r) = pvp_data w" if "P = RejectConflicts"
      using refresh_lines_rejected [of L g sid lines "(0, w2)"] that
      by (simp add: r set_refresh_def w3_def d2)
    from a b c d show ?thesis by blast
  qed
  have G: "snd r = set_refresh key False
                         (snd (refresh_lines P L g sid lines
                                 (0, set_refresh key True
                                       (w\<lparr>pvp_data := delete_many flt (pvp_data w),
                                          faults := fs\<rparr>)))) \<and>
               (\<exists>new. kill_events (snd r) = kill_events w @ new)"
    if fl: "faults w = False # True # fs" for fs
  proof -
    from fl have "faults w1 = False # True # fs" by (simp add: f1)
    from clear_server_data_second_fails [OF this, of g sid]
    have w2e: "w2 = w1\<lparr>pvp_data := delete_many flt (pvp_data w1), faults := fs\<rparr>"
      by (simp add: w2_def flt_def)
    then have w2e': "w2 = set_refresh key True (w\<lparr>pvp_data := delete_many flt (pvp_data w),
                                          faults := fs\<rparr>)"
      by (simp add: w1_def set_refresh_def)
    have d2: "kill_events w2 = kill_events w"
      by (simp add: w2e f1)
    have a: "snd r = set_refresh key False
                         (snd (refresh_lines P L g sid lines
                                 (0, set_refresh key True
                                       (w\<lparr>pvp_data := delete_many flt (pvp_data w),
                                          faults := fs\<rparr>))))"
      by (simp add: r w3_def w2e')
    have c: "\<exists>new. kill_events (snd r) = kill_events w @ new"
      using refresh_lines_others [of g sid P L lines "(0, w2)"]
      by (simp add: r set_refresh_def w3_def d2)
    from a c show ?thesis by blast
  qed
  from A B C D E E' F G show ?thesis
    unfolding Let_def r_def [symmetric] sid_def [symmetric] key_def [symmetric] flt_def [symmetric]
    by blast
qed

theorem refresh_rebuilds_witness:
  "active_refreshes (empty_world\<lparr>pvp_data := [zed_record]\<rparr>) (server_key 1 (server_id_of s1)) \<noteq> Some True \<and>
   True \<notin> set (take 2 (faults (empty_world\<lparr>pvp_data := [zed_record]\<rparr>))) \<and>
   True \<notin> set (faults (empty_world\<lparr>pvp_data := [zed_record]\<rparr>)) \<and>
   parsed_events sample_lib [alice_line, dan_line] = [alice_kills_bob, dan_kills_eve] \<and>
   fst (refresh_server_data RejectConflicts sample_lib 1 s1 None [alice_line, dan_line]
          (empty_world\<lparr>pvp_data := [zed_record]\<rparr>)) = True \<and>
   filter (matches (server_filter 1 (server_id_of s1)))
     (pvp_data (snd (refresh_server_data RejectConflicts sample_lib 1 s1 None [alice_line, dan_line]
          (empty_world\<lparr>pvp_data := [zed_record]\<rparr>)))) = [] \<and>
   filter (matches (server_filter 1 (server_id_of s1)))
     (kill_events (snd (refresh_server_data RejectConflicts sample_lib 1 s1 None [alice_line, dan_line]
          (empty_world\<lparr>pvp_data := [zed_record]\<rparr>)))) =
     [kill_event 1 ''s1'' (DateTime [2024, 6, 1, 12, 0, 0] (Some 0)) alice_kills_bob,
      kill_event 1 ''s1'' (DateTime [2024, 6, 1, 12, 0, 0] (Some 0)) dan_kills_eve] \<and>
   faults (empty_world\<lparr>pvp_data := [zed_record], faults := [True]\<rparr>) = [True] \<and>
   pvp_data (snd (refresh_server_data RejectConflicts sample_lib 1 s1 None [alice_line, dan_line]
          (empty_world\<lparr>pvp_data := [zed_record], faults := [True]\<rparr>))) = [zed_record] \<and>
   faults (empty_world\<lparr>pvp_data := [zed_record], kill_events := [zed_record],
             faults := [False, True]\<rparr>) = [False, True] \<and>
   (\<exists>new. kill_events
      (snd (refresh_server_data RejectConflicts sample_lib 1 s1 None [alice_line, dan_line]
         (empty_world\<lparr>pvp_data := [zed_record], kill_events := [zed_record],
             faults := [False, True]\<rparr>))) = [zed_record] @ new)"
proof -
  define w0 where "w0 = empty_world\<lparr>pvp_data := [zed_record]\<rparr>"
  define wa where "wa = empty_world\<lparr>pvp_data := [zed_record], faults := [True]\<rparr>"
  define wb where "wb = empty_world\<lparr>pvp_data := [zed_record], kill_events := [zed_record],
             faults := [False, True]\<rparr>"
  have h1: "active_refreshes w0 (server_key 1 (server_id_of s1)) \<noteq> Some True"
    by (simp add: empty_world_def w0_def)
  have h1a: "active_refreshes wa (server_key 1 (server_id_of s1)) \<noteq> Some True"
    by (simp add: empty_world_def wa_def)
  have h1b: "active_refreshes wb (server_key 1 (server_id_of s1)) \<noteq> Some True"
    by (simp add: empty_world_def wb_def)
  have h2: "(None :: channel option) \<noteq> Some (Channel True)" by simp
  have h3: "[alice_line, dan_line] \<noteq> []" by simp
  have h4: "True \<notin> set (take 2 (faults w0))"
    by (simp add: empty_world_def w0_def)
  have h5: "True \<notin> set (faults w0)"
    by (simp add: empty_world_def w0_def)
  have fa: "faults wa = [True]" "pvp_data wa = [zed_record]" by (simp_all add: wa_def)
  have fb: "faults wb = [False, True]" "kill_events wb = [zed_record]" by (simp_all add: wb_def)
  have p: "parsed_events sample_lib [alice_line, dan_line] = [alice_kills_bob, dan_kills_eve]"
    by (simp add: parsed_events_def alice_parses dan_parses)
       (simp add: alice_line_def dan_line_def strip_def isspace_def)
  have n: "now w0 = DateTime [2024, 6, 1, 12, 0, 0] (Some 0)"
    by (simp add: empty_world_def w0_def)
  have s: "server_id_of s1 = ''s1''" by (simp add: server_id_of_def s1_def)
  note t = refresh_rebuilds [OF h1 h2 h3, of RejectConflicts sample_lib, unfolded Let_def]
  note ta = refresh_rebuilds [OF h1a h2 h3, of RejectConflicts sample_lib, unfolded Let_def]
  note tb = refresh_rebuilds [OF h1b h2 h3, of RejectConflicts sample_lib, unfolded Let_def]
  from t have a: "fst (refresh_server_data RejectConflicts sample_lib 1 s1 None [alice_line, dan_line] w0) = True"
    by (rule conjunct1)
  from t h4 have b: "filter (matches (server_filter 1 (server_id_of s1)))
     (pvp_data (snd (refresh_server_data RejectConflicts sample_lib 1 s1 None [alice_line, dan_line] w0))) = []"
    by blast
  from t h5 have "filter (matches (server_filter 1 (server_id_of s1)))
     (kill_events (snd (refresh_server_data RejectConflicts sample_lib 1 s1 None [alice_line, dan_line] w0))) =
     map (kill_event 1 (server_id_of s1) (now w0)) (parsed_events sample_lib [alice_line, dan_line])"
    by blast
  then have c: "filter (matches (server_filter 1 (server_id_of s1)))
     (kill_events (snd (refresh_server_data RejectConflicts sample_lib 1 s1 None [alice_line, dan_line] w0))) =
     [kill_event 1 ''s1'' (DateTime [2024, 6, 1, 12, 0, 0] (Some 0)) alice_kills_bob,
      kill_event 1 ''s1'' (DateTime [2024, 6, 1, 12, 0, 0] (Some 0)) dan_kills_eve]"
    by (simp only: p n s list.map)
  from ta fa(1) have "pvp_data (snd (refresh_server_data RejectConflicts sample_lib 1 s1 None
      [alice_line, dan_line] wa)) = pvp_data wa"
    by blast
  then have d: "pvp_data (snd (refresh_server_data RejectConflicts sample_lib 1 s1 None
      [alice_line, dan_line] wa)) = [zed_record]"
    by (simp only: fa(2))
  from tb fb(1) have "\<exists>new. kill_events (snd (refresh_server_data RejectConflicts sample_lib 1 s1 None
      [alice_line, dan_line] wb)) = kill_events wb @ new"
    by blast
  then have e: "\<exists>new. kill_events (snd (refresh_server_data RejectConflicts sample_lib 1 s1 None
      [alice_line, dan_line] wb)) = [zed_record] @ new"
    by (simp only: fb(2))
  from h1 h4 h5 p a b c fa(1) d fb(1) e show ?thesis
    unfolding w0_def wa_def wb_def by blast
qed

text \<open>
  The run of C6 on a store that never fails, over two PvP-kill lines with the killers
  Alice and Dan: where the store refuses the update the run returns \<open>True\<close> and leaves
  the two log entries and no record; where the store takes it, Alice, Bob, Dan and Eve
  have kills 0 and deaths 0. And when the first delete raises, the run returns \<open>True\<close>
  and the record from before the run is still there.
\<close>

theorem refresh_rebuilds_counterexample:
  "parse_csv_line sample_lib alice_line = Some alice_kills_bob \<and>
   parse_csv_line sample_lib dan_line = Some dan_kills_eve \<and>
   refresh_server_data RejectConflicts sample_lib 1 s1 None [alice_line, dan_line]
     (empty_world\<lparr>pvp_data := [zed_record]\<rparr>) =
   (True, empty_world
      \<lparr>kill_events :=
         [kill_event 1 ''s1'' (DateTime [2024, 6, 1, 12, 0, 0] (Some 0)) alice_kills_bob,
          kill_event 1 ''s1'' (DateTime [2024, 6, 1, 12, 0, 0] (Some 0)) dan_kills_eve],
       active_refreshes := [server_key 1 ''s1'' \<mapsto> False]\<rparr>) \<and>
   map (\<lambda>d. (map_of d ''player_name'', map_of d ''kills'', map_of d ''deaths''))
     (pvp_data (snd (refresh_server_data LastWriteWins sample_lib 1 s1 None [alice_line, dan_line]
        (empty_world\<lparr>pvp_data := [zed_record]\<rparr>)))) =
   [(Some (VStr ''Alice''), Some (VInt 0), Some (VInt 0)),
    (Some (VStr ''Bob''), Some (VInt 0), Some (VInt 0)),
    (Some (VStr ''Dan''), Some (VInt 0), Some (VInt 0)),
    (Some (VStr ''Eve''), Some (VInt 0), Some (VInt 0))] \<and>
   fst (refresh_server_data RejectConflicts sample_lib 1 s1 None [alice_line]
          (empty_world\<lparr>pvp_data := [zed_record], faults := [True]\<rparr>)) = True \<and>
   pvp_data (snd (refresh_server_data RejectConflicts sample_lib 1 s1 None [alice_line]
          (empty_world\<lparr>pvp_data := [zed_record], faults := [True]\<rparr>))) = [zed_record] \<and>
   matches (server_filter 1 ''s1'') zed_record"
proof -
  have a: "strip alice_line \<noteq> []" "strip dan_line \<noteq> []"
    by (simp_all add: alice_line_def dan_line_def strip_def isspace_def)
  have z: "matches (server_filter 1 ''s1'') zed_record"
    by (simp add: matches_def zed_record_def server_filter_def)
  have 1: "refresh_server_data RejectConflicts sample_lib 1 s1 None [alice_line, dan_line]
     (empty_world\<lparr>pvp_data := [zed_record]\<rparr>) =
   (True, empty_world
      \<lparr>kill_events :=
         [kill_event 1 ''s1'' (DateTime [2024, 6, 1, 12, 0, 0] (Some 0)) alice_kills_bob,
          kill_event 1 ''s1'' (DateTime [2024, 6, 1, 12, 0, 0] (Some 0)) dan_kills_eve],
       active_refreshes := [server_key 1 ''s1'' \<mapsto> False]\<rparr>)"
    using z
    by (simp add: refresh_eval_defs a alice_parses dan_parses update_pvp_stats_inc_rejected
        add_kill_event_def store_call_def empty_world_def
        alice_kills_bob_def dan_kills_eve_def Let_def)
  have 2: "map (\<lambda>d. (map_of d ''player_name'', map_of d ''kills'', map_of d ''deaths''))
     (pvp_data (snd (refresh_server_data LastWriteWins sample_lib 1 s1 None [alice_line, dan_line]
        (empty_world\<lparr>pvp_data := [zed_record]\<rparr>)))) =
   [(Some (VStr ''Alice''), Some (VInt 0), Some (VInt 0)),
    (Some (VStr ''Bob''), Some (VInt 0), Some (VInt 0)),
    (Some (VStr ''Dan''), Some (VInt 0), Some (VInt 0)),
    (Some (VStr ''Eve''), Some (VInt 0), Some (VInt 0))]"
    using z
    by (simp add: refresh_eval_defs a alice_parses dan_parses eval_defs
        alice_kills_bob_def dan_kills_eve_def)
  have 3: "fst (refresh_server_data RejectConflicts sample_lib 1 s1 None [alice_line]
          (empty_world\<lparr>pvp_data := [zed_record], faults := [True]\<rparr>)) = True \<and>
   pvp_data (snd (refresh_server_data RejectConflicts sample_lib 1 s1 None [alice_line]
          (empty_world\<lparr>pvp_data := [zed_record], faults := [True]\<rparr>))) = [zed_record]"
    by (simp add: refresh_eval_defs empty_world_def store_call_def Let_def
      alice_parses alice_line_def [symmetric] update_pvp_stats_inc_rejected
      add_kill_event_def alice_kills_bob_def a)
  from 1 2 3 z alice_parses dan_parses show ?thesis by blast
qed

section \<open>Remote Source Adapter\<close>

lemma read_all_stops:
  assumes "\<forall>f \<in> set pre. \<exists>ls. read_lines r (path @ ''/'' @ f) = Inr ls"
    and "read_lines r (path @ ''/'' @ f) = Inl e"
  shows "read_all r path (pre @ f # post) acc =
     Inl (e, acc @ concat (map (file_lines r path) pre))"
  using assms by (induction pre arbitrary: acc) (auto simp: file_lines_def)

lemma read_all_completes:
  assumes "\<forall>f \<in> set fs. \<exists>ls. read_lines r (path @ ''/'' @ f) = Inr ls"
  shows "read_all r path fs acc = Inr (acc @ concat (map (file_lines r path) fs))"
  using assms by (induction fs arbitrary: acc) (auto simp: file_lines_def)

lemma fetch_latest_cases:
  "(\<not> (truthy (sftp_host cfg) \<and> truthy (sftp_username cfg) \<and> truthy (sftp_password cfg)) \<longrightarrow>
      get_sftp_csv_files cfg r = []) \<and>
   (connect_raises r \<longrightarrow> get_sftp_csv_files cfg r = []) \<and>
   (\<forall>e. listdir_attr r (deathlogs_path (sftp_host cfg) (server_id_of cfg)) = Inl e \<longrightarrow>
      get_sftp_csv_files cfg r = []) \<and>
   (\<forall>items x xs e.
      listdir_attr r (deathlogs_path (sftp_host cfg) (server_id_of cfg)) = Inr items \<longrightarrow>
      sort_key (\<lambda>x. - snd x) (csv_files items) = x # xs \<longrightarrow>
      read_lines r (deathlogs_path (sftp_host cfg) (server_id_of cfg) @ ''/'' @ fst x) = Inl e \<longrightarrow>
      get_sftp_csv_files cfg r = [])"
  by (auto simp: get_sftp_csv_files_def fetch_latest_def Let_def
      split: sum.splits exn.splits list.splits)

lemma fetch_all_cases:
  "(let host = getenv r ''SFTP_HOST'' (sftp_host cfg);
        username = getenv r ''SFTP_USERNAME'' (sftp_username cfg);
        password = getenv r ''SFTP_PASSWORD'' (sftp_password cfg);
        path = deathlogs_path host (server_id_of cfg)
    in (\<not> (truthy host \<and> truthy username \<and> truthy password) \<longrightarrow> get_sftp_csv_files_all cfg r = []) \<and>
       (connect_raises r \<longrightarrow> get_sftp_csv_files_all cfg r = []) \<and>
       (port_raises r \<longrightarrow> get_sftp_csv_files_all cfg r = []) \<and>
       (\<forall>e. listdir_attr r path = Inl e \<longrightarrow> get_sftp_csv_files_all cfg r = []) \<and>
       (\<forall>items e ls.
          listdir_attr r path = Inr items \<longrightarrow>
          read_all r path (map fst (sort_key snd (csv_files items))) [] = Inl (e, ls) \<longrightarrow>
          truthy host \<and> truthy username \<and> truthy password \<and> \<not> connect_raises r \<and> \<not> port_raises r \<longrightarrow>
          get_sftp_csv_files_all cfg r = (if e = FileNotFoundError then ls else [])))"
  by (auto simp: get_sftp_csv_files_all_def fetch_all_def Let_def
      split: sum.splits exn.splits list.splits)

text \<open>
  C9 against the code. Neither fetch raises to its caller: each returns a list. In the
  fetch of the latest file, missing credentials, a connection that fails, a listing that
  fails and a read that fails each give the empty list. In the fetch of all files the
  same holds but for one case: a read that raises \<open>FileNotFoundError\<close> is caught by the
  handler written for the listing (historical_parser.py 119-120; its \<open>try\<close> encloses the
  download loop), and the lines of the files read before it are returned. A read that
  raises anything else gives the empty list.
\<close>

theorem fetch_failures:
  "(\<not> (truthy (sftp_host cfg) \<and> truthy (sftp_username cfg) \<and> truthy (sftp_password cfg)) \<longrightarrow>
      get_sftp_csv_files cfg r = []) \<and>
   (connect_raises r \<longrightarrow> get_sftp_csv_files cfg r = []) \<and>
   (\<forall>e. listdir_attr r (deathlogs_path (sftp_host cfg) (server_id_of cfg)) = Inl e \<longrightarrow>
      get_sftp_csv_files cfg r = []) \<and>
   (\<forall>items x xs e.
      listdir_attr r (deathlogs_path (sftp_host cfg) (server_id_of cfg)) = Inr items \<longrightarrow>
      sort_key (\<lambda>x. - snd x) (csv_files items) = x # xs \<longrightarrow>
      read_lines r (deathlogs_path (sftp_host cfg) (server_id_of cfg) @ ''/'' @ fst x) = Inl e \<longrightarrow>
      get_sftp_csv_files cfg r = []) \<and>
   (let host = getenv r ''SFTP_HOST'' (sftp_host cfg);
        username = getenv r ''SFTP_USERNAME'' (sftp_username cfg);
        password = getenv r ''SFTP_PASSWORD'' (sftp_password cfg);
        path = deathlogs_path host (server_id_of cfg)
    in (\<not> (truthy host \<and> truthy username \<and> truthy password) \<longrightarrow> get_sftp_csv_files_all cfg r = []) \<and>
       (connect_raises r \<longrightarrow> get_sftp_csv_files_all cfg r = []) \<and>
       (\<forall>e. listdir_attr r path = Inl e \<longrightarrow> get_sftp_csv_files_all cfg r = []) \<and>
       (\<forall>items pre f post e.
          truthy host \<and> truthy username \<and> truthy password \<and> \<not> connect_raises r \<and> \<not> port_raises r \<longrightarrow>
          listdir_attr r path = Inr items \<longrightarrow>
          map fst (sort_key snd (csv_files items)) = pre @ f # post \<longrightarrow>
          (\<forall>f' \<in> set pre. \<exists>ls. read_lines r (path @ ''/'' @ f') = Inr ls) \<longrightarrow>
          read_lines r (path @ ''/'' @ f) = Inl e \<longrightarrow>
          get_sftp_csv_files_all cfg r =
            (if e = FileNotFoundError then concat (map (file_lines r path) pre) else [])))"
proof -
  note a = fetch_latest_cases [of cfg r]
  note b = fetch_all_cases [of r cfg, unfolded Let_def]
  have c: "get_sftp_csv_files_all cfg r =
            (if e = FileNotFoundError then concat (map (file_lines r path) pre) else [])"
    if "path = deathlogs_path (getenv r ''SFTP_HOST'' (sftp_host cfg)) (server_id_of cfg)"
      and "truthy (getenv r ''SFTP_HOST'' (sftp_host cfg)) \<and>
           truthy (getenv r ''SFTP_USERNAME'' (sftp_username cfg)) \<and>
           truthy (getenv r ''SFTP_PASSWORD'' (sftp_password cfg)) \<and>
           \<not> connect_raises r \<and> \<not> port_raises r"
      and "listdir_attr r path = Inr items"
      and "map fst (sort_key snd (csv_files items)) = pre @ f # post"
      and "\<forall>f' \<in> set pre. \<exists>ls. read_lines r (path @ ''/'' @ f') = Inr ls"
      and "read_lines r (path @ ''/'' @ f) = Inl e"
    for path items pre f post e
  proof -
    from read_all_stops [OF that(5,6), of post "[]"] that(4)
    have "read_all r path (map fst (sort_key snd (csv_files items))) [] =
        Inl (e, concat (map (file_lines r path) pre))"
      by simp
    with b that(1,2,3) show ?thesis by blast
  qed
  from a b c show ?thesis
    unfolding Let_def by blast
qed

theorem fetch_failures_witness:
  "connect_raises (rotated_env\<lparr>connect_raises := True\<rparr>) \<and>
   get_sftp_csv_files s1 (rotated_env\<lparr>connect_raises := True\<rparr>) = [] \<and>
   listdir_attr rotated_env (deathlogs_path (sftp_host s1) (server_id_of s1)) =
     Inr [(''b.csv'', 2), (''a.csv'', 1), (''notes.txt'', 3)] \<and>
   sort_key (\<lambda>x. - snd x) (csv_files [(''b.csv'', 2), (''a.csv'', 1), (''notes.txt'', 3)]) =
     [(''b.csv'', 2), (''a.csv'', 1)] \<and>
   read_lines rotated_env (deathlogs_path (sftp_host s1) (server_id_of s1) @ ''/'' @ ''b.csv'') =
     Inl FileNotFoundError \<and>
   get_sftp_csv_files s1 rotated_env = []"
proof -
  have h1: "connect_raises (rotated_env\<lparr>connect_raises := True\<rparr>)" by simp
  have h2: "listdir_attr rotated_env (deathlogs_path (sftp_host s1) (server_id_of s1)) =
     Inr [(''b.csv'', 2), (''a.csv'', 1), (''notes.txt'', 3)]"
    by (simp add: rotated_env_def deathlogs_path_def s1_def server_id_of_def)
  have h3: "sort_key (\<lambda>x. - snd x) (csv_files [(''b.csv'', 2), (''a.csv'', 1), (''notes.txt'', 3 :: int)]) =
     [(''b.csv'', 2), (''a.csv'', 1)]"
    by (simp add: csv_files_def endswith_def startswith_def)
  have h4: "read_lines rotated_env (deathlogs_path (sftp_host s1) (server_id_of s1) @ ''/'' @ fst (''b.csv'', 2 :: int)) =
     Inl FileNotFoundError"
    by (simp add: rotated_env_def deathlogs_path_def s1_def server_id_of_def)
  note t = fetch_failures [of s1 "rotated_env\<lparr>connect_raises := True\<rparr>"]
  note u = fetch_failures [of s1 rotated_env]
  from t h1 have a: "get_sftp_csv_files s1 (rotated_env\<lparr>connect_raises := True\<rparr>) = []" by blast
  from u h2 h3 h4 have b: "get_sftp_csv_files s1 rotated_env = []" by blast
  from h1 a h2 h3 h4 b show ?thesis by simp
qed

text \<open>
  C9 fails at a server whose newer log is gone when it is opened: the fetch of all files
  returns the line of the older log, where C9 asks for the empty list. At the same server
  the fetch of the latest file returns the empty list, and so does the fetch of all files
  when the read raises another error, or when the directory itself is missing.
\<close>

theorem fetch_failures_counterexample:
  "get_sftp_csv_files_all s1 rotated_env = [alice_line] \<and>
   read_lines rotated_env ''./host_s1/actual1/deathlogs//b.csv'' = Inl FileNotFoundError \<and>
   get_sftp_csv_files s1 rotated_env = [] \<and>
   get_sftp_csv_files_all s1
     (rotated_env\<lparr>read_lines := (\<lambda>p. if p = ''./host_s1/actual1/deathlogs//a.csv''
                                       then Inr [alice_line] else Inl OtherError)\<rparr>) = [] \<and>
   get_sftp_csv_files_all s1
     (rotated_env\<lparr>listdir_attr := (\<lambda>p. Inl FileNotFoundError)\<rparr>) = []"
  by (simp add: get_sftp_csv_files_all_def fetch_all_def get_sftp_csv_files_def fetch_latest_def
      getenv_def port_raises_def truthy_def
      deathlogs_path_def server_id_of_def s1_def rotated_env_def csv_files_def endswith_def
      startswith_def Let_def)

end
